theory Spec2Isabelle
  imports Complex_Main
begin

section \<open>Data model of dqn_agent.py\<close>

text \<open>
  Python exceptions raised by the modelled code. \<open>AssertionError\<close> is the failed
  \<^verbatim>\<open>assert\<close> of \<^verbatim>\<open>get_single_experience\<close>; \<open>IndexError\<close> is raised by
  \<^verbatim>\<open>deque.__getitem__\<close> and by \<^verbatim>\<open>random.choice\<close> on an empty sequence;
  \<open>ValueError\<close> by \<^verbatim>\<open>deque(maxlen=...)\<close> with a negative bound; \<open>RuntimeError\<close>
  by the tensor library.
\<close>

datatype error = AssertionError | IndexError | ValueError | RuntimeError

text \<open>\<^verbatim>\<open>class Experience(NamedTuple)\<close>, polymorphic in what an observation is.\<close>

record 'obs Experience =
  observation :: 'obs
  action :: int
  next_observation :: 'obs

subsection \<open>collections.deque with a maximal length\<close>

text \<open>
  \<^verbatim>\<open>deque.append\<close>: the item is added on the right and, when the length then
  exceeds \<^verbatim>\<open>maxlen\<close>, one item is removed on the left.
\<close>

definition deque_append :: "int \<Rightarrow> 'a list \<Rightarrow> 'a \<Rightarrow> 'a list" where
  "deque_append maxlen xs x =
     (let ys = xs @ [x] in if int (length ys) > maxlen then tl ys else ys)"

text \<open>
  \<^verbatim>\<open>deque.__getitem__\<close>: a negative index counts from the right end; an index
  outside the deque raises IndexError.
\<close>

definition deque_getitem :: "'a list \<Rightarrow> int \<Rightarrow> error + 'a" where
  "deque_getitem xs i =
     (let n = int (length xs); j = (if i < 0 then i + n else i)
      in if 0 \<le> j \<and> j < n then Inr (xs ! nat j) else Inl IndexError)"

subsection \<open>class ReplayBuffer\<close>

record 'obs ReplayBuffer =
  buffer_size :: int
  buffer_experience :: "'obs Experience list"
  n_experience :: int

text \<open>\<^verbatim>\<open>ReplayBuffer.__init__\<close>; \<^verbatim>\<open>deque(maxlen=n)\<close> raises ValueError for \<open>n < 0\<close>.\<close>

definition ReplayBuffer_init :: "int \<Rightarrow> error + 'obs ReplayBuffer" where
  "ReplayBuffer_init cap =
     (if cap < 0 then Inl ValueError
      else Inr \<lparr>buffer_size = cap, buffer_experience = [], n_experience = 0\<rparr>)"

text \<open>\<^verbatim>\<open>ReplayBuffer.append\<close>\<close>

definition buffer_append :: "'obs ReplayBuffer \<Rightarrow> 'obs \<Rightarrow> int \<Rightarrow> 'obs \<Rightarrow> 'obs ReplayBuffer" where
  "buffer_append b obs a next_obs =
     (let d = deque_append (buffer_size b) (buffer_experience b)
                \<lparr>observation = obs, action = a, next_observation = next_obs\<rparr>
      in b\<lparr>buffer_experience := d, n_experience := int (length d)\<rparr>)"

text \<open>\<^verbatim>\<open>ReplayBuffer.get_single_experience\<close>\<close>

definition get_single_experience :: "'obs ReplayBuffer \<Rightarrow> int \<Rightarrow> error + 'obs Experience" where
  "get_single_experience b time_step =
     (if \<not> (n_experience b - 1 > time_step) then Inl AssertionError
      else deque_getitem (buffer_experience b) time_step)"

text \<open>
  \<^verbatim>\<open>random.choice(range(m))\<close>: IndexError on an empty range, otherwise the element
  of the range at the position \<open>r\<close> the generator draws below \<open>m\<close>. The draw is an
  input of the model; a position outside the range is an IndexError of \<^verbatim>\<open>range\<close>.
\<close>

definition random_choice_range :: "int \<Rightarrow> nat \<Rightarrow> error + int" where
  "random_choice_range m r =
     (if m \<le> 0 then Inl IndexError
      else if int r < m then Inr (int r) else Inl IndexError)"

text \<open>
  The loop of \<^verbatim>\<open>ReplayBuffer.get_batch_experience\<close>: \<open>i\<close> is the loop variable,
  \<open>k\<close> the number of iterations still to run, \<open>rand i\<close> the draw of iteration \<open>i\<close>.
\<close>

fun batch_loop ::
  "(nat \<Rightarrow> nat) \<Rightarrow> 'obs ReplayBuffer \<Rightarrow> nat \<Rightarrow> nat \<Rightarrow> 'obs Experience list
     \<Rightarrow> error + 'obs Experience list" where
  "batch_loop rand b i 0 batch = Inr batch"
| "batch_loop rand b i (Suc k) batch =
     (case random_choice_range (n_experience b - 1) (rand i) of
        Inl e \<Rightarrow> Inl e
      | Inr index \<Rightarrow>
          (case get_single_experience b index of
             Inl e \<Rightarrow> Inl e
           | Inr x \<Rightarrow> batch_loop rand b (Suc i) k (batch @ [x])))"

text \<open>\<^verbatim>\<open>ReplayBuffer.get_batch_experience\<close>; \<^verbatim>\<open>range(batch_size)\<close> is empty for \<open>batch_size \<le> 0\<close>.\<close>

definition get_batch_experience ::
  "(nat \<Rightarrow> nat) \<Rightarrow> 'obs ReplayBuffer \<Rightarrow> int \<Rightarrow> error + 'obs Experience list" where
  "get_batch_experience rand b batch_size = batch_loop rand b 0 (nat batch_size) []"

text \<open>\<^verbatim>\<open>ReplayBuffer.clear\<close>\<close>

definition clear :: "'obs ReplayBuffer \<Rightarrow> 'obs ReplayBuffer" where
  "clear b = b\<lparr>buffer_experience := [], n_experience := 0\<rparr>"

text \<open>
  A caller of the buffer: the four methods, and a run of calls from a fresh buffer.
  The two reading methods return a value or raise; either way the buffer is left as
  it was.
\<close>

datatype 'obs buffer_call =
  Append 'obs int 'obs
| Get_single int
| Get_batch "nat \<Rightarrow> nat" int
| Clear

fun call :: "'obs ReplayBuffer \<Rightarrow> 'obs buffer_call \<Rightarrow> 'obs ReplayBuffer" where
  "call b (Append obs a next_obs) = buffer_append b obs a next_obs"
| "call b (Get_single t) = (case get_single_experience b t of Inl e \<Rightarrow> b | Inr x \<Rightarrow> b)"
| "call b (Get_batch rand n) = (case get_batch_experience rand b n of Inl e \<Rightarrow> b | Inr xs \<Rightarrow> b)"
| "call b Clear = clear b"

definition calls :: "'obs ReplayBuffer \<Rightarrow> 'obs buffer_call list \<Rightarrow> 'obs ReplayBuffer" where
  "calls b cs = foldl call b cs"

text \<open>The experience an \<open>Append\<close> call stores.\<close>

definition experience_of :: "'obs \<times> int \<times> 'obs \<Rightarrow> 'obs Experience" where
  "experience_of t =
     (case t of (obs, a, next_obs) \<Rightarrow>
        \<lparr>observation = obs, action = a, next_observation = next_obs\<rparr>)"

definition appends :: "'obs ReplayBuffer \<Rightarrow> ('obs \<times> int \<times> 'obs) list \<Rightarrow> 'obs ReplayBuffer" where
  "appends b ts = foldl (\<lambda>b (obs, a, next_obs). buffer_append b obs a next_obs) b ts"

text \<open>
  The representation invariant of a buffer of capacity \<open>cap\<close>: the deque holds at most
  \<open>cap\<close> experiences and \<open>n_experience\<close> caches its length.
\<close>

definition buffer_ok :: "int \<Rightarrow> 'obs ReplayBuffer \<Rightarrow> bool" where
  "buffer_ok cap b \<longleftrightarrow> 0 \<le> cap \<and> buffer_size b = cap \<and>
     int (length (buffer_experience b)) \<le> cap \<and> n_experience b = int (length (buffer_experience b))"

section \<open>Tensors, the reward and the network\<close>

text \<open>
  Tensor entries are real numbers: the arithmetic of the model is exact, where the code
  computes in 32-bit floating point.
\<close>

text \<open>\<^verbatim>\<open>Tensor.clamp(min=lo, max=hi)\<close>\<close>

definition clamp :: "real \<Rightarrow> real \<Rightarrow> real \<Rightarrow> real" where
  "clamp lo hi x = min (max x lo) hi"

text \<open>
  \<^verbatim>\<open>DQNAgent.reward\<close>: \<^verbatim>\<open>- 0.01 * vector_obs.pow(2.0).sum()\<close>, clamped. The second
  argument is not used. The result is a plain number: nothing of it is a function of the
  parameters of a network.
\<close>

definition reward :: "real list \<Rightarrow> real list \<Rightarrow> real" where
  "reward vector_obs next_vector_obs =
     clamp (- 3) 3 (- 0.01 * sum_list (map (\<lambda>x. x ^ 2) vector_obs))"

text \<open>
  Indexing a one-dimensional tensor with a Python integer: a negative index counts from
  the end, an index outside the tensor raises IndexError.
\<close>

definition tensor_getitem :: "real list \<Rightarrow> int \<Rightarrow> error + real" where
  "tensor_getitem q a =
     (if 0 \<le> a \<and> a < int (length q) then Inr (q ! nat a)
      else if - int (length q) \<le> a \<and> a < 0 then Inr (q ! nat (int (length q) + a))
      else Inl IndexError)"

text \<open>\<^verbatim>\<open>Tensor.max()\<close>: RuntimeError on a tensor without elements.\<close>

definition tensor_max :: "real list \<Rightarrow> error + real" where
  "tensor_max q = (case q of [] \<Rightarrow> Inl RuntimeError | x # xs \<Rightarrow> Inr (fold max xs x))"

text \<open>
  Dividing a float tensor of one element by a Python integer, as in
  \<^verbatim>\<open>loss /= self.batch_size\<close>. Nothing is raised for the divisor 0: the result is then
  \<^verbatim>\<open>nan\<close> (for \<^verbatim>\<open>0 / 0\<close>) or an infinity, which is no real number: \<open>None\<close>.
\<close>

definition tensor_div :: "real \<Rightarrow> int \<Rightarrow> real option" where
  "tensor_div x b = (if b = 0 then None else Some (x / real_of_int b))"

text \<open>
  A tensor of a network is its shape and its entries; the entries are kept abstract
  (type \<open>'w\<close>). A \<^verbatim>\<open>state_dict\<close> lists the tensors of a module under their names, in
  the order of registration.
\<close>

record 'w Tensor =
  shape :: "nat list"
  data :: 'w

type_synonym 'w state_dict = "(string \<times> 'w Tensor) list"

text \<open>\<^verbatim>\<open>class Observation(NamedTuple)\<close>\<close>

record Observation =
  image_tensor :: "real list Tensor"
  vector_tensor :: "real list"

text \<open>
  \<^verbatim>\<open>QNet.__init__\<close>: the names and shapes of the parameters and buffers of
  \<^verbatim>\<open>conv1, bn1, conv2, bn2, fc_vec, fc1, fc2\<close>. Only \<^verbatim>\<open>conv1.weight\<close> depends on
  \<^verbatim>\<open>n_images\<close>.
\<close>

definition QNet_shapes :: "nat \<Rightarrow> nat \<Rightarrow> nat \<Rightarrow> (string \<times> nat list) list" where
  "QNet_shapes n_images vector_dim n_act =
     [(''conv1.weight'', [8, 3 * n_images, 3, 3]),
      (''conv1.bias'', [8]),
      (''bn1.weight'', [8]),
      (''bn1.bias'', [8]),
      (''bn1.running_mean'', [8]),
      (''bn1.running_var'', [8]),
      (''bn1.num_batches_tracked'', []),
      (''conv2.weight'', [16, 8, 3, 3]),
      (''conv2.bias'', [16]),
      (''bn2.weight'', [16]),
      (''bn2.bias'', [16]),
      (''bn2.running_mean'', [16]),
      (''bn2.running_var'', [16]),
      (''bn2.num_batches_tracked'', []),
      (''fc_vec.weight'', [50, vector_dim]),
      (''fc_vec.bias'', [50]),
      (''fc1.weight'', [400, 12594]),
      (''fc1.bias'', [400]),
      (''fc2.weight'', [n_act, 400]),
      (''fc2.bias'', [n_act])]"

text \<open>
  The constructor fills every tensor with initial entries (\<open>init\<close>, random in the code); a
  negative dimension is a RuntimeError of the tensor library.
\<close>

definition QNet :: "(string \<Rightarrow> nat list \<Rightarrow> 'w) \<Rightarrow> int \<Rightarrow> int \<Rightarrow> int \<Rightarrow> error + 'w state_dict" where
  "QNet init n_images vector_dim n_act =
     (if n_images < 0 \<or> vector_dim < 0 \<or> n_act < 0 then Inl RuntimeError
      else Inr (map (\<lambda>(k, sh). (k, \<lparr>shape = sh, data = init k sh\<rparr>))
                  (QNet_shapes (nat n_images) (nat vector_dim) (nat n_act))))"

text \<open>
  The buffers of the two \<^verbatim>\<open>BatchNorm2d\<close> layers: they are part of the \<^verbatim>\<open>state_dict\<close>
  but not of \<^verbatim>\<open>parameters()\<close>.
\<close>

definition buffer_keys :: "string list" where
  "buffer_keys =
     [''bn1.running_mean'', ''bn1.running_var'', ''bn1.num_batches_tracked'',
      ''bn2.running_mean'', ''bn2.running_var'', ''bn2.num_batches_tracked'']"

definition parameters :: "'w state_dict \<Rightarrow> 'w state_dict" where
  "parameters sd = filter (\<lambda>(k, t). k \<notin> set buffer_keys) sd"

text \<open>The names and shapes of a \<^verbatim>\<open>state_dict\<close>.\<close>

definition architecture :: "'w state_dict \<Rightarrow> (string \<times> nat list) list" where
  "architecture sd = map (\<lambda>(k, t). (k, shape t)) sd"

text \<open>
  \<^verbatim>\<open>Module.load_state_dict(loaded)\<close> (strict): a RuntimeError for a missing key, an
  unexpected key or a tensor of another shape; otherwise the entries of every own tensor
  are overwritten with the loaded ones.
\<close>

definition load_state_dict :: "'w state_dict \<Rightarrow> 'w state_dict \<Rightarrow> error + 'w state_dict" where
  "load_state_dict own loaded =
     (if set (map fst own) \<noteq> set (map fst loaded) then Inl RuntimeError
      else if \<not> list_all (\<lambda>(k, t). case map_of loaded k of
                                       None \<Rightarrow> False
                                     | Some t' \<Rightarrow> shape t' = shape t) own
      then Inl RuntimeError
      else Inr (map (\<lambda>(k, t). (k, case map_of loaded k of
                                     None \<Rightarrow> t
                                   | Some t' \<Rightarrow> t\<lparr>data := data t'\<rparr>)) own))"

text \<open>
  What the model takes from the tensor library, as functions:
  \<^item> \<open>initial i\<close>: the initial entries of the tensors of the \<open>i\<close>-th constructed module;
  \<^item> \<open>forward_out\<close>: the output of \<^verbatim>\<open>QNet.forward\<close>, or the error it raises. The modules
    stay in training mode, where \<^verbatim>\<open>BatchNorm2d\<close> normalises with the statistics of its
    input: the output depends on the parameters, not on the buffers;
  \<^item> \<open>forward_stats\<close>: the entries of a buffer after a forward pass (training mode updates
    the running statistics);
  \<^item> \<open>topk1\<close>: the index \<^verbatim>\<open>topk(1)\<close> returns for a non-empty tensor;
  \<^item> \<open>backward\<close>: the gradient of a loss, a function of the online \<^verbatim>\<open>state_dict\<close>, at a
    point (the value of a loss is an error, a real number, or \<open>None\<close> for \<^verbatim>\<open>nan\<close> and the
    infinities);
  \<^item> \<open>adam_param\<close>, \<open>adam_state\<close>: the entries of a parameter and the state of the
    optimizer after \<^verbatim>\<open>Adam.step()\<close>.
\<close>

record ('w, 'g, 'o) torch =
  initial :: "nat \<Rightarrow> string \<Rightarrow> nat list \<Rightarrow> 'w"
  forward_out :: "'w state_dict \<Rightarrow> Observation \<Rightarrow> error + real list"
  forward_stats :: "'w state_dict \<Rightarrow> Observation \<Rightarrow> string \<Rightarrow> 'w"
  topk1 :: "real list \<Rightarrow> nat"
  backward :: "('w state_dict \<Rightarrow> error + real option) \<Rightarrow> 'w state_dict \<Rightarrow> 'g"
  adam_init :: "real \<Rightarrow> real \<Rightarrow> real \<Rightarrow> 'o"
  adam_param :: "'o \<Rightarrow> 'g \<Rightarrow> string \<Rightarrow> 'w \<Rightarrow> 'w"
  adam_state :: "'o \<Rightarrow> 'g \<Rightarrow> 'o"

text \<open>
  A call \<^verbatim>\<open>net(image_tensor, vector_tensor)\<close>: the output (or error) and the module with its
  buffers updated.
\<close>

definition forward ::
  "('w, 'g, 'o) torch \<Rightarrow> 'w state_dict \<Rightarrow> Observation \<Rightarrow> (error + real list) \<times> 'w state_dict" where
  "forward T sd x =
     (forward_out T (parameters sd) x,
      map (\<lambda>(k, t). if k \<in> set buffer_keys then (k, t\<lparr>data := forward_stats T sd x k\<rparr>)
                     else (k, t)) sd)"

text \<open>\<^verbatim>\<open>Adam.step()\<close> over \<^verbatim>\<open>params=self.qnet.parameters()\<close>: buffers are not parameters.\<close>

definition optimizer_step ::
  "('w, 'g, 'o) torch \<Rightarrow> 'o \<Rightarrow> 'g \<Rightarrow> 'w state_dict \<Rightarrow> 'w state_dict" where
  "optimizer_step T opt g sd =
     map (\<lambda>(k, t). if k \<in> set buffer_keys then (k, t)
                    else (k, t\<lparr>data := adam_param T opt g k (data t)\<rparr>)) sd"

section \<open>class DQNAgent\<close>

text \<open>
  The configuration entries \<^verbatim>\<open>config["qn"][...]\<close> and \<^verbatim>\<open>config["dnn"][...]\<close>, after their
  conversion by \<^verbatim>\<open>int\<close> and \<^verbatim>\<open>float\<close>.
\<close>

record Config =
  qn_input_time_horizon :: int
  qn_training_start_from :: int
  qn_iteration :: int
  qn_replay_buffer_size :: int
  qn_reward_discount :: real
  dnn_learning_rate :: real
  dnn_adam_eps :: real
  dnn_batch_size :: int
  dnn_weight_decay :: real

record ('w, 'o) DQNAgent =
  input_time_horizon :: int
  shape_obs_image :: "nat \<times> nat \<times> nat"
  n_action :: int
  qnet :: "'w state_dict"
  qnet_support :: "'w state_dict"
  training_start_from :: int
  learning_rate :: real
  adam_eps :: real
  batch_size :: int
  iteration :: int
  optimizer :: 'o
  replay_buffer_size :: int
  replay_buffer :: "Observation ReplayBuffer"
  reward_discount :: real
  eps_e_greedy :: real
  time_tick :: int
  prev_observation :: "Observation option"
  prev_action :: "int option"

text \<open>
  \<^verbatim>\<open>DQNAgent.__init__\<close>. The online network is built for \<^verbatim>\<open>input_time_horizon\<close> images, the
  support network for one image, and the support network then loads the \<^verbatim>\<open>state_dict\<close>
  of the online one. \<^verbatim>\<open>torch.optim.Adam\<close> raises ValueError for a negative learning rate,
  epsilon or weight decay.
\<close>

definition DQNAgent_init ::
  "('w, 'g, 'o) torch \<Rightarrow> Config \<Rightarrow> int \<Rightarrow> nat \<times> nat \<times> nat \<Rightarrow> real \<Rightarrow> error + ('w, 'o) DQNAgent" where
  "DQNAgent_init T config n_act shape_im eps_start =
     (case QNet (initial T 0) (qn_input_time_horizon config) 2 n_act of
        Inl err \<Rightarrow> Inl err
      | Inr online \<Rightarrow>
     (case QNet (initial T 1) 1 2 n_act of
        Inl err \<Rightarrow> Inl err
      | Inr support \<Rightarrow>
     (case load_state_dict support online of
        Inl err \<Rightarrow> Inl err
      | Inr support' \<Rightarrow>
     (if dnn_learning_rate config < 0 \<or> dnn_adam_eps config < 0 \<or> dnn_weight_decay config < 0
      then Inl ValueError
      else
     (case ReplayBuffer_init (qn_replay_buffer_size config) of
        Inl err \<Rightarrow> Inl err
      | Inr buffer \<Rightarrow>
          Inr \<lparr>input_time_horizon = qn_input_time_horizon config,
               shape_obs_image = shape_im,
               n_action = n_act,
               qnet = online,
               qnet_support = support',
               training_start_from = qn_training_start_from config,
               learning_rate = dnn_learning_rate config,
               adam_eps = dnn_adam_eps config,
               batch_size = dnn_batch_size config,
               iteration = qn_iteration config,
               optimizer = adam_init T (dnn_learning_rate config) (dnn_adam_eps config)
                             (dnn_weight_decay config),
               replay_buffer_size = qn_replay_buffer_size config,
               replay_buffer = buffer,
               reward_discount = qn_reward_discount config,
               eps_e_greedy = eps_start,
               time_tick = 0,
               prev_observation = None,
               prev_action = None\<rparr>)))))"

text \<open>\<^verbatim>\<open>DQNAgent.reset_for_new_episode\<close>\<close>

definition reset_for_new_episode :: "('w, 'o) DQNAgent \<Rightarrow> ('w, 'o) DQNAgent" where
  "reset_for_new_episode s = s\<lparr>prev_observation := None, prev_action := None\<rparr>"

text \<open>
  \<^verbatim>\<open>DQNAgent.obs_to_tensor\<close>: \<^verbatim>\<open>view((1, c, h, w))\<close> keeps the entries and raises a
  RuntimeError when the number of elements differs.
\<close>

definition obs_to_tensor ::
  "nat \<times> nat \<times> nat \<Rightarrow> real list Tensor \<times> real list \<Rightarrow> error + Observation" where
  "obs_to_tensor shape_im raw_observation =
     (case shape_im of (h, w, c) \<Rightarrow>
        if prod_list (shape (fst raw_observation)) \<noteq> 1 * c * h * w then Inl RuntimeError
        else Inr \<lparr>image_tensor = \<lparr>shape = [1, c, h, w], data = data (fst raw_observation)\<rparr>,
                  vector_tensor = snd raw_observation\<rparr>)"

text \<open>
  \<^verbatim>\<open>DQNAgent.get_greedy_action\<close>: \<^verbatim>\<open>topk(1)\<close> raises a RuntimeError on a tensor without
  elements.
\<close>

definition get_greedy_action ::
  "('w, 'g, 'o) torch \<Rightarrow> 'w state_dict \<Rightarrow> Observation
     \<Rightarrow> (error + int \<times> real list) \<times> 'w state_dict" where
  "get_greedy_action T online x =
     (case forward T online x of
        (Inl err, online') \<Rightarrow> (Inl err, online')
      | (Inr q_val, online') \<Rightarrow>
          if q_val = [] then (Inl RuntimeError, online')
          else (Inr (int (topk1 T q_val), q_val), online'))"

subsection \<open>train\<close>

text \<open>
  The body of the loop of \<^verbatim>\<open>DQNAgent.train\<close> for one experience. The state of the loop is
  the online network, the support network (both change their buffers in a forward pass)
  and the loss accumulated so far. An error leaves the loop with the state reached.
\<close>

definition train_example ::
  "('w, 'g, 'o) torch \<Rightarrow> real \<Rightarrow> Observation Experience
     \<Rightarrow> 'w state_dict \<times> 'w state_dict \<times> real
     \<Rightarrow> error option \<times> 'w state_dict \<times> 'w state_dict \<times> real" where
  "train_example T discount experience st =
     (case st of (online, support, loss) \<Rightarrow>
      (case forward T online (observation experience) of
         (Inl err, online') \<Rightarrow> (Some err, online', support, loss)
       | (Inr q, online') \<Rightarrow>
      (case tensor_getitem q (action experience) of
         Inl err \<Rightarrow> (Some err, online', support, loss)
       | Inr q_val \<Rightarrow>
      (case forward T support (next_observation experience) of
         (Inl err, support') \<Rightarrow> (Some err, online', support', loss)
       | (Inr q_next, support') \<Rightarrow>
      (case tensor_max q_next of
         Inl err \<Rightarrow> (Some err, online', support', loss)
       | Inr q_vec_next \<Rightarrow>
           let reward_tensor = reward (vector_tensor (observation experience))
                                 (vector_tensor (next_observation experience));
               target = reward_tensor + discount * q_vec_next
           in (None, online', support', loss + (clamp (- 1) 1 (target - q_val)) ^ 2))))))"

fun train_loop ::
  "('w, 'g, 'o) torch \<Rightarrow> real \<Rightarrow> Observation Experience list
     \<Rightarrow> 'w state_dict \<times> 'w state_dict \<times> real
     \<Rightarrow> error option \<times> 'w state_dict \<times> 'w state_dict \<times> real" where
  "train_loop T discount [] st = (None, st)"
| "train_loop T discount (experience # data_batch) st =
     (case train_example T discount experience st of
        (Some err, st') \<Rightarrow> (Some err, st')
      | (None, st') \<Rightarrow> train_loop T discount data_batch st')"

text \<open>
  The value of \<^verbatim>\<open>loss\<close> after \<^verbatim>\<open>loss /= self.batch_size\<close>, as a function of the online
  \<^verbatim>\<open>state_dict\<close> \<open>\<theta>\<close>: this is the function \<^verbatim>\<open>loss.backward()\<close> differentiates. The support
  network and the batch are fixed. For \<^verbatim>\<open>batch_size = 0\<close> the batch is empty and the value
  is \<^verbatim>\<open>zeros(1) / 0\<close>, a \<^verbatim>\<open>nan\<close>.
\<close>

definition train_loss ::
  "('w, 'g, 'o) torch \<Rightarrow> real \<Rightarrow> int \<Rightarrow> Observation Experience list \<Rightarrow> 'w state_dict
     \<Rightarrow> 'w state_dict \<Rightarrow> error + real option" where
  "train_loss T discount bs data_batch support \<theta> =
     (case train_loop T discount data_batch (\<theta>, support, 0) of
        (Some err, st) \<Rightarrow> Inl err
      | (None, online', support', loss) \<Rightarrow> Inr (tensor_div loss bs))"

text \<open>
  \<^verbatim>\<open>DQNAgent.train\<close>; \<open>rand\<close> are the draws of the batch. \<^verbatim>\<open>loss.backward()\<close> raises a
  RuntimeError when the loss depends on no parameter, which is the case of an empty batch
  (whose loss is \<^verbatim>\<open>zeros(1) / batch_size\<close>). The result is the error raised, if any, and
  the agent as the call leaves it.
\<close>

definition train ::
  "('w, 'g, 'o) torch \<Rightarrow> (nat \<Rightarrow> nat) \<Rightarrow> ('w, 'o) DQNAgent \<Rightarrow> error option \<times> ('w, 'o) DQNAgent" where
  "train T rand s =
     (case get_batch_experience rand (replay_buffer s) (batch_size s) of
        Inl err \<Rightarrow> (Some err, s)
      | Inr data_batch \<Rightarrow>
     (case train_loop T (reward_discount s) data_batch (qnet s, qnet_support s, 0) of
        (Some err, online', support', loss) \<Rightarrow>
          (Some err, s\<lparr>qnet := online', qnet_support := support'\<rparr>)
      | (None, online', support', loss) \<Rightarrow>
          if data_batch = [] then (Some RuntimeError, s\<lparr>qnet := online', qnet_support := support'\<rparr>)
          else
            let g = backward T
                      (train_loss T (reward_discount s) (batch_size s) data_batch (qnet_support s))
                      (qnet s)
            in (None, s\<lparr>qnet := optimizer_step T (optimizer s) g online',
                        qnet_support := support',
                        optimizer := adam_state T (optimizer s) g\<rparr>)))"

subsection \<open>step\<close>

text \<open>The random numbers one call of \<^verbatim>\<open>step\<close> consumes.\<close>

record Draws =
  random_random :: real
  choice_action :: nat
  choice_batch :: "nat \<Rightarrow> nat"

text \<open>What \<^verbatim>\<open>step\<close> prints.\<close>

datatype printed = Buffer_progress int int | Iteration_done

text \<open>Lines 148 to 153: the transition from the previous observation is stored.\<close>

definition store_transition :: "('w, 'o) DQNAgent \<Rightarrow> Observation \<Rightarrow> ('w, 'o) DQNAgent" where
  "store_transition s obs_now =
     (case (prev_action s, prev_observation s) of
        (Some a, Some obs) \<Rightarrow> s\<lparr>replay_buffer := buffer_append (replay_buffer s) obs a obs_now\<rparr>
      | _ \<Rightarrow> s)"

text \<open>Lines 157 to 160: the epsilon-greedy choice.\<close>

definition select_action :: "Draws \<Rightarrow> ('w, 'o) DQNAgent \<Rightarrow> int \<Rightarrow> error + int" where
  "select_action r s greedy_action =
     (if random_random r < eps_e_greedy s
      then random_choice_range (n_action s) (choice_action r)
      else Inr greedy_action)"

text \<open>Lines 163 to 167: one training update once the buffer is warm.\<close>

definition train_if_warm ::
  "('w, 'g, 'o) torch \<Rightarrow> Draws \<Rightarrow> ('w, 'o) DQNAgent
     \<Rightarrow> error option \<times> printed list \<times> ('w, 'o) DQNAgent" where
  "train_if_warm T r s =
     (if n_experience (replay_buffer s) > training_start_from s
      then (case train T (choice_batch r) s of (err, s') \<Rightarrow> (err, [], s'))
      else (None,
            if n_experience (replay_buffer s) mod 500 = 0
            then [Buffer_progress (n_experience (replay_buffer s)) (replay_buffer_size s)]
            else [],
            s))"

text \<open>
  Lines 170 to 175: when the counter equals \<^verbatim>\<open>iteration\<close> it is set to 0 and the support
  network loads the online one; otherwise the counter is incremented.
\<close>

definition sync_target ::
  "('w, 'o) DQNAgent \<Rightarrow> error option \<times> printed list \<times> ('w, 'o) DQNAgent" where
  "sync_target s =
     (if time_tick s = iteration s
      then (case load_state_dict (qnet_support s) (qnet s) of
              Inl err \<Rightarrow> (Some err, [], s\<lparr>time_tick := 0\<rparr>)
            | Inr support' \<Rightarrow>
                (None, [Iteration_done], s\<lparr>time_tick := 0, qnet_support := support'\<rparr>))
      else (None, [], s\<lparr>time_tick := time_tick s + 1\<rparr>))"

text \<open>
  \<^verbatim>\<open>DQNAgent.step\<close> (its argument \<^verbatim>\<open>done\<close> is never read): the action returned or the error
  raised, what was printed, and the agent
  as the call leaves it.
\<close>

definition step ::
  "('w, 'g, 'o) torch \<Rightarrow> Draws \<Rightarrow> ('w, 'o) DQNAgent \<Rightarrow> real list Tensor \<times> real list
     \<Rightarrow> (error + int) \<times> printed list \<times> ('w, 'o) DQNAgent" where
  "step T r s raw_observation =
     (case obs_to_tensor (shape_obs_image s) raw_observation of
        Inl err \<Rightarrow> (Inl err, [], s)
      | Inr obs_now \<Rightarrow>
     (let s1 = store_transition s obs_now in
      case get_greedy_action T (qnet s1) obs_now of
        (Inl err, online') \<Rightarrow> (Inl err, [], s1\<lparr>qnet := online'\<rparr>)
      | (Inr (greedy_action, q_vec), online') \<Rightarrow>
     (let s2 = s1\<lparr>qnet := online'\<rparr> in
      case select_action r s2 greedy_action of
        Inl err \<Rightarrow> (Inl err, [], s2)
      | Inr next_action \<Rightarrow>
     (case train_if_warm T r s2 of
        (Some err, out1, s3) \<Rightarrow> (Inl err, out1, s3)
      | (None, out1, s3) \<Rightarrow>
     (case sync_target s3 of
        (Some err, out2, s4) \<Rightarrow> (Inl err, out1 @ out2, s4)
      | (None, out2, s4) \<Rightarrow>
          (Inr next_action, out1 @ out2,
           s4\<lparr>prev_observation := Some obs_now, prev_action := Some next_action\<rparr>))))))"

text \<open>
  A driver calling \<^verbatim>\<open>step\<close> once per input until a call raises: the error, if any, all
  that was printed, and the final agent.
\<close>

fun steps ::
  "('w, 'g, 'o) torch \<Rightarrow> ('w, 'o) DQNAgent \<Rightarrow> (Draws \<times> real list Tensor \<times> real list) list
     \<Rightarrow> error option \<times> printed list \<times> ('w, 'o) DQNAgent" where
  "steps T s [] = (None, [], s)"
| "steps T s ((r, raw) # inputs) =
     (case step T r s raw of
        (Inl err, out, s') \<Rightarrow> (Some err, out, s')
      | (Inr a, out, s') \<Rightarrow>
          (case steps T s' inputs of (err, out', s'') \<Rightarrow> (err, out @ out', s'')))"
text \<open>
  The two networks of an agent have the same names and shapes, and the names are distinct:
  then \<^verbatim>\<open>load_state_dict\<close> cannot fail.
\<close>

definition agent_ok :: "('w, 'o) DQNAgent \<Rightarrow> bool" where
  "agent_ok s \<longleftrightarrow>
     architecture (qnet_support s) = architecture (qnet s) \<and> distinct (map fst (qnet s))"

text \<open>A driver that constructs the agent and then calls \<^verbatim>\<open>step\<close> once per input.\<close>

definition run ::
  "('w, 'g, 'o) torch \<Rightarrow> Config \<Rightarrow> int \<Rightarrow> nat \<times> nat \<times> nat \<Rightarrow> real
     \<Rightarrow> (Draws \<times> real list Tensor \<times> real list) list
     \<Rightarrow> error + error option \<times> printed list \<times> ('w, 'o) DQNAgent" where
  "run T config n_act shape_im eps_start inputs =
     (case DQNAgent_init T config n_act shape_im eps_start of
        Inl err \<Rightarrow> Inl err
      | Inr s \<Rightarrow> Inr (steps T s inputs))"

section \<open>A small instance\<close>

text \<open>
  A stand-in for the tensor library, small enough to compute with: the output of the
  network is \<^verbatim>\<open>fc2.bias\<close> plus the vector observation, \<^verbatim>\<open>topk(1)\<close> is the first position
  of the maximum, every tensor starts at zero (only \<^verbatim>\<open>fc2.bias\<close> is filled in), a
  forward pass leaves the vector of its input in every buffer, and the optimizer adds 1 to
  every entry of a parameter and counts its steps.
\<close>

definition example_torch :: "(real list, unit, nat) torch" where
  "example_torch =
     \<lparr>initial = (\<lambda>i k sh. if k = ''fc2.bias'' then replicate (prod_list sh) 0 else []),
      forward_out = (\<lambda>sd x. case map_of sd ''fc2.bias'' of
                                None \<Rightarrow> Inl RuntimeError
                              | Some t \<Rightarrow> Inr (map2 (+) (data t) (vector_tensor x))),
      forward_stats = (\<lambda>sd x k. vector_tensor x),
      topk1 = (\<lambda>q. length (takeWhile (\<lambda>x. x < fold max q (hd q)) q)),
      backward = (\<lambda>f \<theta>. ()),
      adam_init = (\<lambda>lr eps wd. 0),
      adam_param = (\<lambda>opt g k w. map (\<lambda>x. x + 1) w),
      adam_state = (\<lambda>opt g. Suc opt)\<rparr>"

definition example_obs :: "real list \<Rightarrow> Observation" where
  "example_obs v = \<lparr>image_tensor = \<lparr>shape = [1, 1, 1, 1], data = [0]\<rparr>, vector_tensor = v\<rparr>"

definition example_batch :: "Observation Experience list" where
  "example_batch =
     [\<lparr>observation = example_obs [0, 0], action = 1, next_observation = example_obs [10, 0]\<rparr>,
      \<lparr>observation = example_obs [10, 0], action = 1, next_observation = example_obs [1, 1]\<rparr>]"

text \<open>
  An agent in the middle of a run, with three stored transitions; of its networks, one
  buffer of the first batch normalisation and the bias of the last layer are listed.
\<close>

definition example_agent :: "(real list, nat) DQNAgent" where
  "example_agent =
     \<lparr>input_time_horizon = 1,
      shape_obs_image = (1, 1, 1),
      n_action = 2,
      qnet = [(''bn1.running_mean'', \<lparr>shape = [2], data = [0, 0]\<rparr>),
              (''fc2.bias'', \<lparr>shape = [2], data = [1, 0]\<rparr>)],
      qnet_support = [(''bn1.running_mean'', \<lparr>shape = [2], data = [0, 0]\<rparr>),
                      (''fc2.bias'', \<lparr>shape = [2], data = [0, 2]\<rparr>)],
      training_start_from = 1,
      learning_rate = 1 / 1000,
      adam_eps = 1 / 100000000,
      batch_size = 2,
      iteration = 2,
      optimizer = 0,
      replay_buffer_size = 10,
      replay_buffer =
        \<lparr>buffer_size = 10,
         buffer_experience = example_batch @
           [\<lparr>observation = example_obs [1, 1], action = 0, next_observation = example_obs [0, 0]\<rparr>],
         n_experience = 3\<rparr>,
      reward_discount = 1 / 2,
      eps_e_greedy = 1 / 10,
      time_tick = 0,
      prev_observation = Some (example_obs [0, 0]),
      prev_action = Some 0\<rparr>"

text \<open>A configuration with a sync interval of 2 and a warm-up of 5 transitions.\<close>

definition example_config :: "int \<Rightarrow> Config" where
  "example_config horizon =
     \<lparr>qn_input_time_horizon = horizon,
      qn_training_start_from = 5,
      qn_iteration = 2,
      qn_replay_buffer_size = 10,
      qn_reward_discount = 1 / 2,
      dnn_learning_rate = 1 / 1000,
      dnn_adam_eps = 1 / 100000000,
      dnn_batch_size = 2,
      dnn_weight_decay = 0\<rparr>"

text \<open>An input of \<^verbatim>\<open>step\<close>: a 32 by 32 image of three channels, a vector, and the draws.\<close>

definition example_input :: "real list \<Rightarrow> Draws \<times> real list Tensor \<times> real list" where
  "example_input v =
     (\<lparr>random_random = 1 / 2, choice_action = 0, choice_batch = (\<lambda>i. 0)\<rparr>,
      \<lparr>shape = [32, 32, 3], data = replicate 3072 0\<rparr>, v)"

text \<open>
  The agent after construction with a time horizon of 1 and two calls of \<^verbatim>\<open>step\<close>.
\<close>

definition example_state :: "(real list, nat) DQNAgent" where
  "example_state =
     snd (snd (projr (run example_torch (example_config 1) 2 (32, 32, 3) (1 / 10)
                        [example_input [0, 0], example_input [1, 1]])))"

section \<open>The replay buffer\<close>

subsection \<open>The deque and the representation invariant\<close>

lemma deque_append_drop:
  assumes "0 \<le> cap" "int (length xs) \<le> cap"
  shows "deque_append cap xs x = drop (length xs + 1 - nat cap) (xs @ [x])"
proof (cases "int (length (xs @ [x])) > cap")
  case True
  with assms have "length xs + 1 - nat cap = Suc 0" by auto
  moreover have "drop (Suc 0) (xs @ [x]) = tl (xs @ [x])" by (cases xs) simp_all
  ultimately show ?thesis using True by (simp only: deque_append_def Let_def if_True)
next
  case False
  then have "length xs + 1 - nat cap = 0" by auto
  then have "drop (length xs + 1 - nat cap) (xs @ [x]) = xs @ [x]" by (simp only: drop_0)
  with False show ?thesis by (simp only: deque_append_def Let_def if_False)
qed

lemma length_deque_append:
  assumes "0 \<le> cap" "int (length xs) \<le> cap"
  shows "int (length (deque_append cap xs x)) = min cap (int (length xs) + 1)"
  using assms unfolding deque_append_drop [OF assms] by auto


lemma buffer_ok_init: "ReplayBuffer_init cap = Inr b \<Longrightarrow> buffer_ok cap b"
  by (auto simp: ReplayBuffer_init_def buffer_ok_def split: if_splits)

lemma buffer_ok_append:
  assumes "buffer_ok cap b"
  shows "buffer_ok cap (buffer_append b obs a nobs)"
proof -
  from assms have c: "0 \<le> cap" "int (length (buffer_experience b)) \<le> cap" "buffer_size b = cap"
    by (simp_all add: buffer_ok_def)
  show ?thesis
    using c length_deque_append [OF c(1,2)]
    by (simp add: buffer_ok_def buffer_append_def Let_def)
qed

lemma call_reads:
  "call b (Get_single t) = b" "call b (Get_batch rand n) = b"
  by (simp_all split: sum.splits)

lemma buffer_ok_call: "buffer_ok cap b \<Longrightarrow> buffer_ok cap (call b c)"
proof (cases c)
  case (Append obs a nobs)
  assume "buffer_ok cap b"
  then show ?thesis unfolding Append call.simps by (rule buffer_ok_append)
next
  case Clear
  assume "buffer_ok cap b"
  then show ?thesis unfolding Clear by (simp add: clear_def buffer_ok_def)
qed (simp_all only: call_reads)

lemma buffer_ok_calls: "buffer_ok cap b \<Longrightarrow> buffer_ok cap (calls b cs)"
  unfolding calls_def by (induction cs arbitrary: b) (simp_all add: buffer_ok_call)

lemma appends_snoc:
  "appends b (ts @ [(obs, a, nobs)]) = buffer_append (appends b ts) obs a nobs"
  by (simp add: appends_def)

lemma buffer_ok_appends: "buffer_ok cap b \<Longrightarrow> buffer_ok cap (appends b ts)"
proof (induction ts rule: rev_induct)
  case Nil
  then show ?case by (simp add: appends_def)
next
  case (snoc t ts)
  obtain obs a nobs where t: "t = (obs, a, nobs)" by (cases t) auto
  from snoc show ?case unfolding t appends_snoc by (simp add: buffer_ok_append)
qed

lemma appends_contents:
  assumes "buffer_ok cap b"
  shows "buffer_experience (appends b ts) =
         drop (length (buffer_experience b @ map experience_of ts) - nat cap)
              (buffer_experience b @ map experience_of ts)"
proof (induction ts rule: rev_induct)
  case Nil
  from assms have "length (buffer_experience b) - nat cap = 0" by (auto simp: buffer_ok_def)
  then show ?case by (simp add: appends_def)
next
  case (snoc t ts)
  obtain obs a nobs where t: "t = (obs, a, nobs)" by (cases t) auto
  let ?b = "appends b ts"
  let ?xs = "buffer_experience b @ map experience_of ts"
  let ?e = "experience_of t"
  have ok: "buffer_ok cap ?b" using assms by (rule buffer_ok_appends)
  then have c: "0 \<le> cap" "int (length (buffer_experience ?b)) \<le> cap" "buffer_size ?b = cap"
    by (simp_all add: buffer_ok_def)
  have ih: "buffer_experience ?b = drop (length ?xs - nat cap) ?xs" by (rule snoc)
  have "buffer_experience (appends b (ts @ [t])) =
        deque_append cap (buffer_experience ?b) ?e"
    unfolding t appends_snoc using c(3) by (simp add: buffer_append_def Let_def experience_of_def)
  also have "\<dots> = drop (length (buffer_experience ?b) + 1 - nat cap)
                       (buffer_experience ?b @ [?e])"
    by (rule deque_append_drop [OF c(1,2)])
  also have "\<dots> = drop (length (?xs @ [?e]) - nat cap) (?xs @ [?e])"
  proof (cases "length ?xs \<le> nat cap")
    case True
    then have "drop (length ?xs - nat cap) ?xs = ?xs" by simp
    with ih have "buffer_experience ?b = ?xs" by simp
    then show ?thesis by simp
  next
    case False
    then have l: "length (drop (length ?xs - nat cap) ?xs) = nat cap"
      unfolding length_drop by linarith
    have "length (buffer_experience ?b) = nat cap" unfolding ih by (rule l)
    then have one: "length (buffer_experience ?b) + 1 - nat cap = Suc 0" by simp
    from False have suc: "length (?xs @ [?e]) - nat cap = Suc (length ?xs - nat cap)" by simp
    have "drop (Suc 0) (buffer_experience ?b @ [?e]) =
          drop (Suc 0) (drop (length ?xs - nat cap) (?xs @ [?e]))"
      unfolding ih by simp
    also have "\<dots> = drop (Suc (length ?xs - nat cap)) (?xs @ [?e])"
      unfolding drop_drop by simp
    finally show ?thesis unfolding one suc .
  qed
  finally show ?case by simp
qed

subsection \<open>Capacity and order of the buffer\<close>

text \<open>
  Claim C2. From a fresh buffer of capacity \<open>cap\<close>, after any sequence of calls of its
  methods: the size is at most the capacity and equals the length of the deque; a call that
  makes the size larger is an append, a call that makes it smaller is a clear, and clear
  leaves size 0; and after a further \<open>cap + k\<close> appends the deque holds exactly the last
  \<open>cap\<close> appended experiences, in the order of their insertion, oldest first.
\<close>

theorem replay_buffer_bounded_fifo:
  assumes "ReplayBuffer_init cap = Inr b0"
  shows "n_experience (calls b0 cs) \<le> cap
       \<and> n_experience (calls b0 cs) = int (length (buffer_experience (calls b0 cs)))
       \<and> (n_experience (calls b0 cs) < n_experience (call (calls b0 cs) c)
            \<longrightarrow> (\<exists>obs a nobs. c = Append obs a nobs))
       \<and> (n_experience (call (calls b0 cs) c) < n_experience (calls b0 cs) \<longrightarrow> c = Clear)
       \<and> n_experience (clear (calls b0 cs)) = 0
       \<and> (cap \<le> int (length ts) \<longrightarrow>
            buffer_experience (appends (calls b0 cs) ts)
              = map experience_of (drop (length ts - nat cap) ts))"
proof -
  let ?b = "calls b0 cs"
  have ok: "buffer_ok cap ?b"
    using assms by (intro buffer_ok_calls buffer_ok_init)
  then have c: "0 \<le> cap" "int (length (buffer_experience ?b)) \<le> cap" "buffer_size ?b = cap"
    "n_experience ?b = int (length (buffer_experience ?b))"
    by (simp_all add: buffer_ok_def)
  have grow: "n_experience ?b < n_experience (call ?b c) \<longrightarrow> (\<exists>obs a nobs. c = Append obs a nobs)"
  proof (cases c)
    case Clear
    then show ?thesis using c(4) by (simp add: clear_def)
  qed (simp_all only: call_reads, simp_all)
  have shrink: "n_experience (call ?b c) < n_experience ?b \<longrightarrow> c = Clear"
  proof (cases c)
    case (Append obs a nobs)
    have "n_experience (buffer_append ?b obs a nobs) = min cap (n_experience ?b + 1)"
      using length_deque_append [OF c(1,2)] c(3,4) by (simp add: buffer_append_def Let_def)
    then show ?thesis using c Append by simp
  qed (simp_all only: call_reads, simp_all)
  have fifo: "cap \<le> int (length ts) \<longrightarrow>
      buffer_experience (appends ?b ts) = map experience_of (drop (length ts - nat cap) ts)"
  proof
    assume le: "cap \<le> int (length ts)"
    let ?n = "length (buffer_experience ?b)"
    from le c(1) have "length (buffer_experience ?b @ map experience_of ts) - nat cap
                  = ?n + (length ts - nat cap)" by simp
    then show "buffer_experience (appends ?b ts) = map experience_of (drop (length ts - nat cap) ts)"
      unfolding appends_contents [OF ok] by (simp add: drop_map)
  qed
  show ?thesis using c grow shrink fifo by (simp add: clear_def)
qed

text \<open>
  Claim C2 at capacity 2: a run with an append, a read, a clear and an append, followed by
  three appends, of which the last two remain.
\<close>

theorem replay_buffer_bounded_fifo_witness:
  "ReplayBuffer_init 2 = Inr \<lparr>buffer_size = 2, buffer_experience = ([] :: nat Experience list), n_experience = 0\<rparr>
   \<and> n_experience (calls \<lparr>buffer_size = 2, buffer_experience = ([] :: nat Experience list), n_experience = 0\<rparr>
        [Append 10 0 11, Get_single 0, Clear, Append 11 1 12]) \<le> 2
   \<and> buffer_experience
        (appends (calls \<lparr>buffer_size = 2, buffer_experience = ([] :: nat Experience list), n_experience = 0\<rparr>
                   [Append 10 0 11, Get_single 0, Clear, Append 11 1 12])
           [(1, 0, 2), (2, 1, 3), (3, 0, 4)])
     = [\<lparr>observation = 2, action = 1, next_observation = 3\<rparr>,
        \<lparr>observation = 3, action = 0, next_observation = 4\<rparr>]"
  using replay_buffer_bounded_fifo
    [of 2 "\<lparr>buffer_size = 2, buffer_experience = ([] :: nat Experience list), n_experience = 0\<rparr>"
        "[Append 10 0 11, Get_single 0, Clear, Append 11 1 12]" Clear "[(1, 0, 2), (2, 1, 3), (3, 0, 4)]"]
  by (simp add: ReplayBuffer_init_def experience_of_def)

subsection \<open>Access to a single experience\<close>

lemma deque_getitem_nonneg:
  "0 \<le> i \<Longrightarrow> i < int (length xs) \<Longrightarrow> deque_getitem xs i = Inr (xs ! nat i)"
  by (simp add: deque_getitem_def Let_def)

lemma batch_loop_in_range:
  assumes n: "n_experience b = int (length (buffer_experience b))"
    and r: "\<forall>j. i \<le> j \<and> j < i + k \<longrightarrow> int (rand j) < n_experience b - 1"
  shows "batch_loop rand b i k batch =
         Inr (batch @ map (\<lambda>j. buffer_experience b ! rand j) [i..<i + k])"
  using r
proof (induction k arbitrary: i batch)
  case 0
  then show ?case by simp
next
  case (Suc k)
  have ri: "int (rand i) < n_experience b - 1" using Suc.prems by simp
  then have ch: "random_choice_range (n_experience b - 1) (rand i) = Inr (int (rand i))"
    by (simp add: random_choice_range_def)
  have gs: "get_single_experience b (int (rand i)) = Inr (buffer_experience b ! rand i)"
    using ri n by (simp add: get_single_experience_def deque_getitem_nonneg)
  have "\<forall>j. Suc i \<le> j \<and> j < Suc i + k \<longrightarrow> int (rand j) < n_experience b - 1"
    using Suc.prems by simp
  then have ih: "batch_loop rand b (Suc i) k (batch @ [buffer_experience b ! rand i]) =
      Inr ((batch @ [buffer_experience b ! rand i]) @
           map (\<lambda>j. buffer_experience b ! rand j) [Suc i..<Suc i + k])"
    by (rule Suc.IH)
  have "[i..<i + Suc k] = i # [Suc i..<Suc i + k]"
    by (simp add: upt_conv_Cons)
  then show ?case by (simp add: ch gs ih)
qed

lemma batch_loop_small:
  "n_experience b < 2 \<Longrightarrow> batch_loop rand b i (Suc k) batch = Inl IndexError"
  by (simp add: random_choice_range_def)

text \<open>
  Claim C5. An index at or beyond \<open>n_experience - 1\<close> fails the assertion of
  \<^verbatim>\<open>get_single_experience\<close> (no clamping to a valid index takes place); index 0 on a
  buffer of at least two experiences returns the oldest entry, the head of the deque.
\<close>

theorem get_single_experience_upper_bound:
  "(n_experience b - 1 \<le> t \<longrightarrow> get_single_experience b t = Inl AssertionError)
   \<and> (n_experience b = int (length (buffer_experience b)) \<and> 2 \<le> n_experience b
        \<longrightarrow> get_single_experience b 0 = Inr (hd (buffer_experience b)))"
proof -
  have "get_single_experience b 0 = Inr (hd (buffer_experience b))"
    if "n_experience b = int (length (buffer_experience b))" "2 \<le> n_experience b"
    using that by (cases "buffer_experience b") (auto simp: get_single_experience_def deque_getitem_def)
  then show ?thesis by (simp add: get_single_experience_def)
qed

text \<open>
  Claim C5 at a buffer of two experiences: index 1 fails, index 0 returns the oldest.
\<close>

theorem get_single_experience_upper_bound_witness:
  "get_single_experience
     \<lparr>buffer_size = 3,
      buffer_experience = [\<lparr>observation = 10::nat, action = 0, next_observation = 11\<rparr>,
                           \<lparr>observation = 11, action = 1, next_observation = 12\<rparr>],
      n_experience = 2\<rparr> 1 = Inl AssertionError
   \<and> get_single_experience
     \<lparr>buffer_size = 3,
      buffer_experience = [\<lparr>observation = 10::nat, action = 0, next_observation = 11\<rparr>,
                           \<lparr>observation = 11, action = 1, next_observation = 12\<rparr>],
      n_experience = 2\<rparr> 0 = Inr \<lparr>observation = 10, action = 0, next_observation = 11\<rparr>"
  using get_single_experience_upper_bound
    [of "\<lparr>buffer_size = 3,
      buffer_experience = [\<lparr>observation = 10::nat, action = 0, next_observation = 11\<rparr>,
                           \<lparr>observation = 11, action = 1, next_observation = 12\<rparr>],
      n_experience = 2\<rparr>" 1]
  by simp

text \<open>
  Claim C10, amended. On a buffer of \<open>n \<ge> 1\<close> experiences the assertion lets every negative
  index pass. An index \<open>t\<close> with \<open>- n \<le> t < 0\<close> returns the entry at position \<open>n + t\<close>,
  counted from the newest end, and index \<open>- 1\<close> returns the most recent experience; an
  index below \<open>- n\<close> raises the IndexError of the deque.
\<close>

theorem get_single_experience_negative_index:
  assumes "n_experience b = int (length (buffer_experience b))" "1 \<le> n_experience b" "t < 0"
  shows "get_single_experience b t =
           (if - n_experience b \<le> t then Inr (buffer_experience b ! nat (n_experience b + t))
            else Inl IndexError)
       \<and> get_single_experience b (- 1) = Inr (last (buffer_experience b))"
proof -
  have ne: "buffer_experience b \<noteq> []" using assms by auto
  have "nat (int (length (buffer_experience b)) - 1) = length (buffer_experience b) - 1"
    by simp
  then show ?thesis
    using assms ne by (auto simp: get_single_experience_def deque_getitem_def Let_def last_conv_nth add.commute)
qed

text \<open>
  Claim C10, amended, at a buffer of two experiences and the indices \<open>- 2\<close> and \<open>- 1\<close>.
\<close>

theorem get_single_experience_negative_index_witness:
  "get_single_experience
     \<lparr>buffer_size = 3,
      buffer_experience = [\<lparr>observation = 10::nat, action = 0, next_observation = 11\<rparr>,
                           \<lparr>observation = 11, action = 1, next_observation = 12\<rparr>],
      n_experience = 2\<rparr> (- 2) = Inr \<lparr>observation = 10, action = 0, next_observation = 11\<rparr>
   \<and> get_single_experience
     \<lparr>buffer_size = 3,
      buffer_experience = [\<lparr>observation = 10::nat, action = 0, next_observation = 11\<rparr>,
                           \<lparr>observation = 11, action = 1, next_observation = 12\<rparr>],
      n_experience = 2\<rparr> (- 1) = Inr \<lparr>observation = 11, action = 1, next_observation = 12\<rparr>"
  using get_single_experience_negative_index
    [of "\<lparr>buffer_size = 3,
      buffer_experience = [\<lparr>observation = 10::nat, action = 0, next_observation = 11\<rparr>,
                           \<lparr>observation = 11, action = 1, next_observation = 12\<rparr>],
      n_experience = 2\<rparr>" "- 2"]
  by simp

text \<open>
  Claim C10 as stated fails: on a buffer of one experience the negative index \<open>- 2\<close>
  passes the assertion and then raises IndexError in the deque.
\<close>

theorem get_single_experience_negative_index_counterexample:
  "get_single_experience
     \<lparr>buffer_size = 3,
      buffer_experience = [\<lparr>observation = 10::nat, action = 0, next_observation = 11\<rparr>],
      n_experience = 1\<rparr> (- 2) = Inl IndexError"
  by (simp add: get_single_experience_def deque_getitem_def)

subsection \<open>Batches\<close>

text \<open>
  Claim C6, amended. With draws inside the range \<open>0 .. n_experience - 2\<close>, a buffer of at
  least two experiences returns the \<open>batch_size\<close> experiences at the drawn positions, one
  independent draw per entry, repetitions allowed; a buffer of fewer than two experiences
  fails with IndexError when \<open>batch_size \<ge> 1\<close>; and for \<open>batch_size \<le> 0\<close> the loop body never
  runs and the result is the empty batch, whatever the size of the buffer.
\<close>

theorem get_batch_experience_draws:
  assumes "n_experience b = int (length (buffer_experience b))"
  shows "(2 \<le> n_experience b \<and> (\<forall>i<nat bs. int (rand i) < n_experience b - 1) \<longrightarrow>
            get_batch_experience rand b bs
              = Inr (map (\<lambda>i. buffer_experience b ! rand i) [0..<nat bs]))
       \<and> (n_experience b < 2 \<and> 1 \<le> bs \<longrightarrow>
            get_batch_experience rand b bs = Inl IndexError)
       \<and> (bs \<le> 0 \<longrightarrow> get_batch_experience rand b bs = Inr [])"
proof -
  have in_range: "get_batch_experience rand b bs
              = Inr (map (\<lambda>i. buffer_experience b ! rand i) [0..<nat bs])"
    if "\<forall>i<nat bs. int (rand i) < n_experience b - 1"
    unfolding get_batch_experience_def
    using batch_loop_in_range [OF assms, of 0 "nat bs" rand "[]"] that by simp
  have small: "get_batch_experience rand b bs = Inl IndexError"
    if "n_experience b < 2" "1 \<le> bs"
  proof -
    from that(2) obtain k where "nat bs = Suc k" by (cases "nat bs") auto
    then show ?thesis
      unfolding get_batch_experience_def using batch_loop_small [OF that(1)] by simp
  qed
  have none: "get_batch_experience rand b bs = Inr []" if "bs \<le> 0"
    using that by (simp add: get_batch_experience_def)
  show ?thesis using in_range small none by blast
qed

text \<open>
  Claim C6, amended, at a buffer of two experiences (three draws of position 0) and at a
  buffer of one experience (IndexError).
\<close>

theorem get_batch_experience_draws_witness:
  "get_batch_experience (\<lambda>i. 0)
     \<lparr>buffer_size = 3,
      buffer_experience = [\<lparr>observation = 10::nat, action = 0, next_observation = 11\<rparr>,
                           \<lparr>observation = 11, action = 1, next_observation = 12\<rparr>],
      n_experience = 2\<rparr> 3
   = Inr [\<lparr>observation = 10, action = 0, next_observation = 11\<rparr>,
          \<lparr>observation = 10, action = 0, next_observation = 11\<rparr>,
          \<lparr>observation = 10, action = 0, next_observation = 11\<rparr>]
   \<and> get_batch_experience (\<lambda>i. 0)
     \<lparr>buffer_size = 3,
      buffer_experience = [\<lparr>observation = 10::nat, action = 0, next_observation = 11\<rparr>],
      n_experience = 1\<rparr> 3 = Inl IndexError"
  using get_batch_experience_draws
    [of "\<lparr>buffer_size = 3,
      buffer_experience = [\<lparr>observation = 10::nat, action = 0, next_observation = 11\<rparr>,
                           \<lparr>observation = 11, action = 1, next_observation = 12\<rparr>],
      n_experience = 2\<rparr>" 3 "\<lambda>i. 0"]
    get_batch_experience_draws
    [of "\<lparr>buffer_size = 3,
      buffer_experience = [\<lparr>observation = 10::nat, action = 0, next_observation = 11\<rparr>],
      n_experience = 1\<rparr>" 3 "\<lambda>i. 0"]
  by (simp add: upt_conv_Cons)

text \<open>
  Claim C6 as stated fails: on the empty buffer a batch of size 0 is returned, not an error.
\<close>

theorem get_batch_experience_draws_counterexample:
  "get_batch_experience (\<lambda>i. 0)
     \<lparr>buffer_size = 3, buffer_experience = ([] :: nat Experience list), n_experience = 0\<rparr> 0
   = Inr []"
  by (simp add: get_batch_experience_def)

text \<open>
  Claim C7, amended. A batch larger than the \<open>n_experience - 1\<close> positions that can be drawn
  is not an error: sampling is with replacement, the call returns \<open>batch_size\<close> experiences,
  and some position is necessarily drawn more than once.
\<close>

theorem get_batch_experience_oversized:
  assumes "n_experience b = int (length (buffer_experience b))"
    and "2 \<le> n_experience b" and "n_experience b - 1 < bs"
    and "\<forall>i<nat bs. int (rand i) < n_experience b - 1"
  shows "get_batch_experience rand b bs
           = Inr (map (\<lambda>i. buffer_experience b ! rand i) [0..<nat bs])
       \<and> \<not> inj_on rand {..<nat bs}"
proof -
  have "rand ` {..<nat bs} \<subseteq> {..<nat (n_experience b - 1)}"
    using assms(4) by auto
  then have "card (rand ` {..<nat bs}) \<le> card {..<nat (n_experience b - 1)}"
    by (intro card_mono) simp_all
  also have "\<dots> < card {..<nat bs}" using assms(2,3) by simp
  finally have "\<not> inj_on rand {..<nat bs}" by (rule pigeonhole)
  then show ?thesis
    using get_batch_experience_draws [OF assms(1), of bs rand] assms(2,4) by simp
qed

text \<open>
  Claim C7, amended, at a buffer of three experiences and a batch of size three.
\<close>

theorem get_batch_experience_oversized_witness:
  "get_batch_experience (\<lambda>i. i mod 2)
     \<lparr>buffer_size = 3,
      buffer_experience = [\<lparr>observation = 10::nat, action = 0, next_observation = 11\<rparr>,
                           \<lparr>observation = 11, action = 1, next_observation = 12\<rparr>,
                           \<lparr>observation = 12, action = 0, next_observation = 13\<rparr>],
      n_experience = 3\<rparr> 3
   = Inr [\<lparr>observation = 10, action = 0, next_observation = 11\<rparr>,
          \<lparr>observation = 11, action = 1, next_observation = 12\<rparr>,
          \<lparr>observation = 10, action = 0, next_observation = 11\<rparr>]
   \<and> \<not> inj_on (\<lambda>i. i mod 2) {..<nat 3}"
proof -
  have "\<forall>i<nat 3. int (i mod 2) < 3 - 1" by auto
  then show ?thesis
    using get_batch_experience_oversized
      [of "\<lparr>buffer_size = 3,
        buffer_experience = [\<lparr>observation = 10::nat, action = 0, next_observation = 11\<rparr>,
                             \<lparr>observation = 11, action = 1, next_observation = 12\<rparr>,
                             \<lparr>observation = 12, action = 0, next_observation = 13\<rparr>],
        n_experience = 3\<rparr>" 3 "\<lambda>i. i mod 2"]
    by (simp add: upt_conv_Cons)
qed

text \<open>
  Claim C7 as stated fails: a buffer of three experiences has two positions to draw from,
  and a batch of size five is returned without any error.
\<close>

theorem get_batch_experience_oversized_counterexample:
  "get_batch_experience (\<lambda>i. i mod 2)
     \<lparr>buffer_size = 3,
      buffer_experience = [\<lparr>observation = 10::nat, action = 0, next_observation = 11\<rparr>,
                           \<lparr>observation = 11, action = 1, next_observation = 12\<rparr>,
                           \<lparr>observation = 12, action = 0, next_observation = 13\<rparr>],
      n_experience = 3\<rparr> 5
   = Inr [\<lparr>observation = 10, action = 0, next_observation = 11\<rparr>,
          \<lparr>observation = 11, action = 1, next_observation = 12\<rparr>,
          \<lparr>observation = 10, action = 0, next_observation = 11\<rparr>,
          \<lparr>observation = 11, action = 1, next_observation = 12\<rparr>,
          \<lparr>observation = 10, action = 0, next_observation = 11\<rparr>]"
  by code_simp

section \<open>The reward\<close>

lemma sum_squares_nonneg: "0 \<le> sum_list (map (\<lambda>x. x ^ 2) (v :: real list))"
  by (induction v) simp_all

text \<open>
  Claim C8. The reward is \<open>- 0.01\<close> times the sum of the squares of the components of the
  pre-transition vector, clamped to \<open>[- 3, 3]\<close>; as that product is never positive only
  the lower bound can be active. The result lies in \<open>[- 3, 3]\<close>, is 0 for a zero vector
  of any length, and does not depend on the post-transition vector. It is a number, not a
  function of any network parameter: no gradient flows through it.
\<close>

theorem reward_clamped_penalty:
  "reward vector_obs next_vector_obs
     = clamp (- 3) 3 (- 0.01 * (\<Sum>x\<leftarrow>vector_obs. x ^ 2))
   \<and> reward vector_obs next_vector_obs = max (- 3) (- (\<Sum>x\<leftarrow>vector_obs. x ^ 2) / 100)
   \<and> - 3 \<le> reward vector_obs next_vector_obs
   \<and> reward vector_obs next_vector_obs \<le> 3
   \<and> reward (replicate n 0) next_vector_obs = 0
   \<and> reward vector_obs next_vector_obs = reward vector_obs other_next_vector_obs"
proof -
  have nn: "0 \<le> (\<Sum>x\<leftarrow>vector_obs. x ^ 2)" by (rule sum_squares_nonneg)
  have z: "reward (replicate n 0) next_vector_obs = 0"
  proof -
    have "(\<Sum>x\<leftarrow>replicate n (0::real). x ^ 2) = 0" by (induction n) simp_all
    then show ?thesis by (simp add: reward_def clamp_def)
  qed
  have "reward vector_obs next_vector_obs = max (- 3) (- (\<Sum>x\<leftarrow>vector_obs. x ^ 2) / 100)"
    using nn by (simp add: reward_def clamp_def min_def max_def)
  moreover have "- 3 \<le> reward vector_obs next_vector_obs" "reward vector_obs next_vector_obs \<le> 3"
    by (simp_all add: reward_def clamp_def)
  ultimately show ?thesis
    using z by (simp add: reward_def)
qed

text \<open>Claim C8 at the vectors \<open>[3, 4]\<close> (reward \<open>- 1/4\<close>) and \<open>[20, 10]\<close> (clamped to \<open>- 3\<close>).\<close>

theorem reward_clamped_penalty_witness:
  "reward [3, 4] [5, 6] = - 1 / 4 \<and> reward [20, 10] [0, 0] = - 3"
  using reward_clamped_penalty [of "[3, 4]" "[5, 6]"] reward_clamped_penalty [of "[20, 10]" "[0, 0]"]
  by (simp add: clamp_def)

section \<open>Training\<close>

subsection \<open>Forward passes and the optimizer keep names, shapes and parameters\<close>

lemma parameters_buffer_update:
  "parameters (map (\<lambda>(k, t). if k \<in> set buffer_keys then (k, t\<lparr>data := f k\<rparr>) else (k, t)) sd)
     = parameters sd"
  unfolding parameters_def by (induction sd) auto

lemma architecture_buffer_update:
  "architecture (map (\<lambda>(k, t). if k \<in> set buffer_keys then (k, t\<lparr>data := f k\<rparr>) else (k, t)) sd)
     = architecture sd"
  unfolding architecture_def by (induction sd) auto

lemma parameters_forward: "parameters (snd (forward T sd x)) = parameters sd"
  unfolding forward_def snd_conv by (rule parameters_buffer_update)

lemma architecture_forward: "architecture (snd (forward T sd x)) = architecture sd"
  unfolding forward_def snd_conv by (rule architecture_buffer_update)

lemma fst_forward: "fst (forward T sd x) = forward_out T (parameters sd) x"
  by (simp add: forward_def)

lemma architecture_optimizer_step: "architecture (optimizer_step T opt g sd) = architecture sd"
  unfolding optimizer_step_def architecture_def
  by (induction sd) auto

lemma train_example_frame:
  assumes "train_example T d e (online, support, loss) = (r, online', support', loss')"
  shows "parameters online' = parameters online \<and> parameters support' = parameters support
       \<and> architecture online' = architecture online \<and> architecture support' = architecture support"
proof -
  obtain r1 o1 where f1: "forward T online (observation e) = (r1, o1)" by (cases "forward T online (observation e)")
  obtain r2 s2 where f2: "forward T support (next_observation e) = (r2, s2)" by (cases "forward T support (next_observation e)")
  have o1: "parameters o1 = parameters online" "architecture o1 = architecture online"
    using parameters_forward [of T online "observation e"] architecture_forward [of T online "observation e"] f1 by simp_all
  have s2: "parameters s2 = parameters support" "architecture s2 = architecture support"
    using parameters_forward [of T support "next_observation e"] architecture_forward [of T support "next_observation e"] f2 by simp_all
  from assms have "(online' = o1) \<and> (support' = support \<or> support' = s2)"
    unfolding train_example_def
    by (auto simp: f1 f2 Let_def split: sum.splits)
  then show ?thesis using o1 s2 by auto
qed

lemma train_loop_frame:
  "train_loop T d batch (online, support, loss) = (r, online', support', loss') \<Longrightarrow>
   parameters online' = parameters online \<and> parameters support' = parameters support
   \<and> architecture online' = architecture online \<and> architecture support' = architecture support"
proof (induction batch arbitrary: online support loss)
  case Nil
  then show ?case by simp
next
  case (Cons e batch)
  obtain r1 o1 s1 l1 where ex: "train_example T d e (online, support, loss) = (r1, o1, s1, l1)"
    by (cases "train_example T d e (online, support, loss)") auto
  note fr = train_example_frame [OF ex]
  show ?case
  proof (cases r1)
    case None
    with Cons.prems ex have "train_loop T d batch (o1, s1, l1) = (r, online', support', loss')" by simp
    from Cons.IH [OF this] fr show ?thesis by simp
  next
    case (Some err)
    with Cons.prems ex have "online' = o1" "support' = s1" by simp_all
    with fr show ?thesis by simp
  qed
qed

lemma train_frame:
  "parameters (qnet_support (snd (train T rand s))) = parameters (qnet_support s)
   \<and> architecture (qnet_support (snd (train T rand s))) = architecture (qnet_support s)
   \<and> architecture (qnet (snd (train T rand s))) = architecture (qnet s)
   \<and> (snd (train T rand s))\<lparr>qnet := qnet s, qnet_support := qnet_support s, optimizer := optimizer s\<rparr> = s"
proof (cases "get_batch_experience rand (replay_buffer s) (batch_size s)")
  case (Inl err)
  then show ?thesis by (simp add: train_def)
next
  case (Inr data_batch)
  obtain r online' support' loss where
    lp: "train_loop T (reward_discount s) data_batch (qnet s, qnet_support s, 0) = (r, online', support', loss)"
    by (cases "train_loop T (reward_discount s) data_batch (qnet s, qnet_support s, 0)") auto
  note fr = train_loop_frame [OF lp]
  show ?thesis
    using fr by (cases r) (simp_all add: train_def Inr lp Let_def architecture_optimizer_step)
qed

text \<open>
  Claim C9. Whatever a call of \<^verbatim>\<open>train\<close> does (also when it raises), the parameters of the
  support network are as before; the names and shapes of both networks are kept; and apart
  from the two networks and the optimizer nothing of the agent changes. The online
  parameters are not all that changes: the forward passes, made in training mode, rewrite
  the buffers of the batch normalisation of both networks, and the step of the optimizer
  changes the state of the optimizer.
\<close>

theorem train_updates_online_only:
  "parameters (qnet_support (snd (train T rand s))) = parameters (qnet_support s)
   \<and> architecture (qnet_support (snd (train T rand s))) = architecture (qnet_support s)
   \<and> architecture (qnet (snd (train T rand s))) = architecture (qnet s)
   \<and> (snd (train T rand s))\<lparr>qnet := qnet s, qnet_support := qnet_support s, optimizer := optimizer s\<rparr> = s"
  by (rule train_frame)

text \<open>
  A call of \<^verbatim>\<open>train\<close> at the small instance succeeds and changes more than the online
  parameters: the buffer of the support network now holds the statistics of the last
  forward pass, and the optimizer has counted a step.
\<close>

theorem train_updates_online_only_counterexample:
  "fst (train example_torch (\<lambda>i. i) example_agent) = None
   \<and> qnet_support example_agent
       = [(''bn1.running_mean'', \<lparr>shape = [2], data = [0, 0]\<rparr>),
          (''fc2.bias'', \<lparr>shape = [2], data = [0, 2]\<rparr>)]
   \<and> qnet_support (snd (train example_torch (\<lambda>i. i) example_agent))
       = [(''bn1.running_mean'', \<lparr>shape = [2], data = [1, 1]\<rparr>),
          (''fc2.bias'', \<lparr>shape = [2], data = [0, 2]\<rparr>)]
   \<and> optimizer example_agent = 0
   \<and> optimizer (snd (train example_torch (\<lambda>i. i) example_agent)) = 1"
proof -
  have b: "get_batch_experience (\<lambda>i. i) (replay_buffer example_agent) (batch_size example_agent)
              = Inr example_batch"
    by (simp add: example_agent_def example_batch_def get_batch_experience_def eval_nat_numeral
          random_choice_range_def get_single_experience_def deque_getitem_def)
  have l: "train_loop example_torch (reward_discount example_agent) example_batch
             (qnet example_agent, qnet_support example_agent, 0)
           = (None,
              [(''bn1.running_mean'', \<lparr>shape = [2], data = [10, 0]\<rparr>),
               (''fc2.bias'', \<lparr>shape = [2], data = [1, 0]\<rparr>)],
              [(''bn1.running_mean'', \<lparr>shape = [2], data = [1, 1]\<rparr>),
               (''fc2.bias'', \<lparr>shape = [2], data = [0, 2]\<rparr>)],
              5 / 4)"
    by (simp add: example_agent_def example_batch_def example_obs_def train_example_def
          forward_def parameters_def buffer_keys_def example_torch_def tensor_getitem_def
          tensor_max_def reward_def clamp_def power2_eq_square)
  have n: "example_batch \<noteq> []" by (simp add: example_batch_def)
  have "train example_torch (\<lambda>i. i) example_agent =
          (None,
           example_agent\<lparr>qnet := [(''bn1.running_mean'', \<lparr>shape = [2], data = [10, 0]\<rparr>),
                                 (''fc2.bias'', \<lparr>shape = [2], data = [2, 1]\<rparr>)],
                         qnet_support := [(''bn1.running_mean'', \<lparr>shape = [2], data = [1, 1]\<rparr>),
                                          (''fc2.bias'', \<lparr>shape = [2], data = [0, 2]\<rparr>)],
                         optimizer := 1\<rparr>)"
    unfolding train_def b sum.case l prod.case option.case
    by (simp add: n Let_def optimizer_step_def buffer_keys_def)
       (simp add: example_torch_def example_agent_def)
  then show ?thesis by (simp add: example_agent_def)
qed

subsection \<open>The loss of a batch\<close>

lemma tensor_max_Max: "q \<noteq> [] \<Longrightarrow> tensor_max q = Inr (Max (set q))"
proof (cases q)
  case Nil
  assume "q \<noteq> []"
  with Nil show ?thesis by simp
next
  case (Cons x xs)
  have "Max (set (x # xs)) = fold max xs x" by (rule Max.set_eq_fold)
  then show ?thesis unfolding Cons by (simp add: tensor_max_def)
qed

lemma tensor_getitem_nth:
  "0 \<le> a \<Longrightarrow> a < int (length q) \<Longrightarrow> tensor_getitem q a = Inr (q ! nat a)"
  by (simp add: tensor_getitem_def)

lemma forward_cases:
  "forward T sd x = (forward_out T (parameters sd) x, snd (forward T sd x))"
  by (simp add: forward_def)

lemma train_example_value:
  assumes "forward_out T (parameters online) (observation e) = Inr q"
    and "0 \<le> action e" "action e < int (length q)"
    and "forward_out T (parameters support) (next_observation e) = Inr q_next"
    and "q_next \<noteq> []"
  shows "train_example T d e (online, support, loss) =
           (None, snd (forward T online (observation e)),
            snd (forward T support (next_observation e)),
            loss + (clamp (- 1) 1
                      (reward (vector_tensor (observation e)) (vector_tensor (next_observation e))
                         + d * Max (set q_next) - q ! nat (action e))) ^ 2)"
proof -
  have f1: "forward T online (observation e) = (Inr q, snd (forward T online (observation e)))"
    using forward_cases [of T online "observation e"] assms(1) by simp
  have f2: "forward T support (next_observation e)
              = (Inr q_next, snd (forward T support (next_observation e)))"
    using forward_cases [of T support "next_observation e"] assms(4) by simp
  show ?thesis
    unfolding train_example_def
    apply (simp only: prod.case)
    apply (subst f1)
    apply (simp only: prod.case sum.case tensor_getitem_nth [OF assms(2,3)])
    apply (subst f2)
    apply (simp only: prod.case sum.case tensor_max_Max [OF assms(5)] Let_def)
    done
qed

lemma train_loop_sum:
  assumes "\<forall>e\<in>set batch. forward_out T (parameters \<theta>) (observation e) = Inr (q e)
              \<and> 0 \<le> action e \<and> action e < int (length (q e))"
    and "\<forall>e\<in>set batch. forward_out T (parameters target) (next_observation e) = Inr (q_next e)
              \<and> q_next e \<noteq> []"
    and "parameters online = parameters \<theta>" "parameters support = parameters target"
  shows "train_loop T d batch (online, support, loss) =
           (None, fold (\<lambda>e sd. snd (forward T sd (observation e))) batch online,
            fold (\<lambda>e sd. snd (forward T sd (next_observation e))) batch support,
            loss + (\<Sum>e\<leftarrow>batch. (clamp (- 1) 1
                      (reward (vector_tensor (observation e)) (vector_tensor (next_observation e))
                         + d * Max (set (q_next e)) - q e ! nat (action e))) ^ 2))"
  using assms
proof (induction batch arbitrary: online support loss)
  case Nil
  then show ?case by simp
next
  case (Cons e batch)
  let ?o = "snd (forward T online (observation e))"
  let ?s = "snd (forward T support (next_observation e))"
  let ?l = "loss + (clamp (- 1) 1
                      (reward (vector_tensor (observation e)) (vector_tensor (next_observation e))
                         + d * Max (set (q_next e)) - q e ! nat (action e))) ^ 2"
  have ex: "train_example T d e (online, support, loss) = (None, ?o, ?s, ?l)"
    using Cons.prems by (intro train_example_value) simp_all
  have po: "parameters ?o = parameters \<theta>" "parameters ?s = parameters target"
    using Cons.prems(3,4) by (simp_all add: parameters_forward)
  have "train_loop T d batch (?o, ?s, ?l) =
           (None, fold (\<lambda>e sd. snd (forward T sd (observation e))) batch ?o,
            fold (\<lambda>e sd. snd (forward T sd (next_observation e))) batch ?s,
            ?l + (\<Sum>e\<leftarrow>batch. (clamp (- 1) 1
                      (reward (vector_tensor (observation e)) (vector_tensor (next_observation e))
                         + d * Max (set (q_next e)) - q e ! nat (action e))) ^ 2))"
    using Cons.prems(1,2) po by (intro Cons.IH) simp_all
  then show ?case by (simp add: ex)
qed

lemma length_batch_loop:
  "batch_loop rand b i k batch = Inr result \<Longrightarrow> length result = length batch + k"
  by (induction k arbitrary: i batch) (auto split: sum.splits)


text \<open>
  Claim C1. Let \<^verbatim>\<open>train\<close> draw the batch \<open>data_batch\<close>, and let the forward passes of the
  loop succeed. Then the batch has \<^verbatim>\<open>batch_size\<close> entries, and the loss that is
  differentiated is, at every online \<^verbatim>\<open>state_dict\<close> \<open>\<theta>\<close>, the sum over the sampled experiences
  of the squared clamped difference between target and prediction, divided by
  \<^verbatim>\<open>batch_size\<close>. The prediction is the score of the online network (parameters \<open>\<theta>\<close>) for the
  stored action at the stored observation; the target is the reward of the two vectors
  plus the discount times the maximal score of the support network at the next
  observation: the reward and that maximum do not vary with \<open>\<theta>\<close>. For a batch that is not
  empty, \<^verbatim>\<open>train\<close> succeeds, and what it hands to the optimizer is the gradient of this loss
  at the online network. For an empty batch (\<^verbatim>\<open>batch_size\<close> at most 0) the loss is
  \<^verbatim>\<open>zeros(1) / batch_size\<close>, a \<^verbatim>\<open>nan\<close> for \<^verbatim>\<open>batch_size = 0\<close>, and \<^verbatim>\<open>train\<close> raises at
  \<^verbatim>\<open>loss.backward()\<close>.
\<close>

theorem train_loss_clipped_td:
  assumes "get_batch_experience rand (replay_buffer s) (batch_size s) = Inr data_batch"
    and "\<forall>e\<in>set data_batch. forward_out T (parameters \<theta>) (observation e) = Inr (q e)
              \<and> 0 \<le> action e \<and> action e < int (length (q e))"
    and "\<forall>e\<in>set data_batch.
            forward_out T (parameters (qnet_support s)) (next_observation e) = Inr (q_next e)
              \<and> q_next e \<noteq> []"
  shows "length data_batch = nat (batch_size s)
       \<and> train_loss T (reward_discount s) (batch_size s) data_batch (qnet_support s) \<theta>
           = Inr (if batch_size s = 0 then None
                  else Some ((\<Sum>e\<leftarrow>data_batch.
                     (clamp (- 1) 1
                        (reward (vector_tensor (observation e)) (vector_tensor (next_observation e))
                           + reward_discount s * Max (set (q_next e))
                           - q e ! nat (action e))) ^ 2)
                  / real_of_int (batch_size s)))
       \<and> (data_batch \<noteq> [] \<and> parameters \<theta> = parameters (qnet s) \<longrightarrow>
            train T rand s =
              (None,
               s\<lparr>qnet := optimizer_step T (optimizer s)
                           (backward T
                              (train_loss T (reward_discount s) (batch_size s) data_batch
                                 (qnet_support s))
                              (qnet s))
                           (fold (\<lambda>e sd. snd (forward T sd (observation e))) data_batch (qnet s)),
                 qnet_support :=
                   fold (\<lambda>e sd. snd (forward T sd (next_observation e))) data_batch (qnet_support s),
                 optimizer := adam_state T (optimizer s)
                           (backward T
                              (train_loss T (reward_discount s) (batch_size s) data_batch
                                 (qnet_support s))
                              (qnet s))\<rparr>))
       \<and> (data_batch = [] \<longrightarrow> train T rand s = (Some RuntimeError, s))"
proof -
  have len: "length data_batch = nat (batch_size s)"
    using assms(1) length_batch_loop [of rand "replay_buffer s" 0 "nat (batch_size s)" "[]" data_batch]
    by (simp add: get_batch_experience_def)
  have loss: "train_loss T (reward_discount s) (batch_size s) data_batch (qnet_support s) \<theta>
           = Inr (if batch_size s = 0 then None
                  else Some ((\<Sum>e\<leftarrow>data_batch.
                     (clamp (- 1) 1
                        (reward (vector_tensor (observation e)) (vector_tensor (next_observation e))
                           + reward_discount s * Max (set (q_next e))
                           - q e ! nat (action e))) ^ 2)
                  / real_of_int (batch_size s)))"
    using train_loop_sum [OF assms(2,3) refl refl, of "reward_discount s" 0]
    by (simp add: train_loss_def tensor_div_def)
  have run: "train T rand s =
              (None,
               s\<lparr>qnet := optimizer_step T (optimizer s)
                           (backward T
                              (train_loss T (reward_discount s) (batch_size s) data_batch
                                 (qnet_support s))
                              (qnet s))
                           (fold (\<lambda>e sd. snd (forward T sd (observation e))) data_batch (qnet s)),
                 qnet_support :=
                   fold (\<lambda>e sd. snd (forward T sd (next_observation e))) data_batch (qnet_support s),
                 optimizer := adam_state T (optimizer s)
                           (backward T
                              (train_loss T (reward_discount s) (batch_size s) data_batch
                                 (qnet_support s))
                              (qnet s))\<rparr>)"
    if "data_batch \<noteq> []" "parameters \<theta> = parameters (qnet s)"
    using train_loop_sum [OF assms(2,3) that(2) [symmetric] refl, of "reward_discount s" 0] that(1)
    by (simp add: train_def assms(1) Let_def)
  have empty: "train T rand s = (Some RuntimeError, s)" if "data_batch = []"
    using that by (simp add: train_def assms(1))
  show ?thesis using len loss run empty by blast
qed

text \<open>
  Claim C1 at the small instance: the batch of the first two stored transitions has the
  clamped errors 1 and 1/2, the loss is \<open>(1 + 1/4) / 2\<close>, and \<^verbatim>\<open>train\<close> makes one step of the
  optimizer on the online network.
\<close>

theorem train_loss_clipped_td_witness:
  "get_batch_experience (\<lambda>i. i) (replay_buffer example_agent) (batch_size example_agent)
     = Inr example_batch
   \<and> train_loss example_torch (reward_discount example_agent) (batch_size example_agent)
        example_batch (qnet_support example_agent) (qnet example_agent) = Inr (Some (5 / 8))
   \<and> fst (train example_torch (\<lambda>i. i) example_agent) = None
   \<and> qnet (snd (train example_torch (\<lambda>i. i) example_agent))
       = [(''bn1.running_mean'', \<lparr>shape = [2], data = [10, 0]\<rparr>),
          (''fc2.bias'', \<lparr>shape = [2], data = [2, 1]\<rparr>)]"
proof -
  have h1: "get_batch_experience (\<lambda>i. i) (replay_buffer example_agent) (batch_size example_agent)
              = Inr example_batch"
    by (simp add: example_agent_def example_batch_def get_batch_experience_def eval_nat_numeral
          random_choice_range_def get_single_experience_def deque_getitem_def)
  have h2: "\<forall>e\<in>set example_batch.
              forward_out example_torch (parameters (qnet example_agent)) (observation e)
                = Inr (map2 (+) [1, 0] (vector_tensor (observation e)))
              \<and> 0 \<le> action e
              \<and> action e < int (length (map2 (+) [1, 0] (vector_tensor (observation e))))"
    by (simp add: example_batch_def example_agent_def example_torch_def example_obs_def
          parameters_def buffer_keys_def)
  have h3: "\<forall>e\<in>set example_batch.
              forward_out example_torch (parameters (qnet_support example_agent)) (next_observation e)
                = Inr (map2 (+) [0, 2] (vector_tensor (next_observation e)))
              \<and> map2 (+) [0, 2] (vector_tensor (next_observation e)) \<noteq> []"
    by (simp add: example_batch_def example_agent_def example_torch_def example_obs_def
          parameters_def buffer_keys_def)
  have r: "reward_discount example_agent = 1 / 2" "batch_size example_agent = 2"
    by (simp_all add: example_agent_def)
  have n: "example_batch \<noteq> []" by (simp add: example_batch_def)
  note c1 = train_loss_clipped_td [OF h1 h2 h3]
  have loss: "train_loss example_torch (reward_discount example_agent) (batch_size example_agent)
        example_batch (qnet_support example_agent) (qnet example_agent) = Inr (Some (5 / 8))"
    using c1
    by (simp add: r example_batch_def example_obs_def reward_def clamp_def power2_eq_square)
  have tr: "train example_torch (\<lambda>i. i) example_agent =
              (None,
               example_agent\<lparr>qnet := optimizer_step example_torch (optimizer example_agent)
                           (backward example_torch
                              (train_loss example_torch (reward_discount example_agent)
                                 (batch_size example_agent) example_batch
                                 (qnet_support example_agent))
                              (qnet example_agent))
                           (fold (\<lambda>e sd. snd (forward example_torch sd (observation e)))
                              example_batch (qnet example_agent)),
                 qnet_support :=
                   fold (\<lambda>e sd. snd (forward example_torch sd (next_observation e)))
                     example_batch (qnet_support example_agent),
                 optimizer := adam_state example_torch (optimizer example_agent)
                           (backward example_torch
                              (train_loss example_torch (reward_discount example_agent)
                                 (batch_size example_agent) example_batch
                                 (qnet_support example_agent))
                              (qnet example_agent))\<rparr>)"
    using c1 n by blast
  have q: "qnet (snd (train example_torch (\<lambda>i. i) example_agent))
       = [(''bn1.running_mean'', \<lparr>shape = [2], data = [10, 0]\<rparr>),
          (''fc2.bias'', \<lparr>shape = [2], data = [2, 1]\<rparr>)]"
    unfolding tr
    by (simp add: example_batch_def example_obs_def forward_def optimizer_step_def
          buffer_keys_def example_torch_def)
       (simp add: example_agent_def)
  show ?thesis using h1 loss q by (simp add: tr)
qed

section \<open>Loading a state dictionary\<close>

lemma map_fst_architecture: "map fst (architecture sd) = map fst sd"
  by (induction sd) (auto simp: architecture_def)

lemma tensor_data_update: "shape t = shape t' \<Longrightarrow> t\<lparr>data := data t'\<rparr> = (t' :: 'w Tensor)"
  by (cases t, cases t') simp

lemma load_state_dict_same_architecture:
  assumes arch: "architecture own = architecture loaded" and dist: "distinct (map fst loaded)"
  shows "load_state_dict own loaded = Inr loaded"
proof -
  have keys: "map fst own = map fst loaded"
    using arg_cong [OF arch, of "map fst"] by (simp only: map_fst_architecture)
  have len: "length own = length loaded"
    using arg_cong [OF keys, of length] by simp
  have nth: "fst (own ! i) = fst (loaded ! i) \<and> shape (snd (own ! i)) = shape (snd (loaded ! i))"
    if "i < length own" for i
  proof -
    have "architecture own ! i = architecture loaded ! i" by (simp add: arch)
    then show ?thesis using that len by (simp add: architecture_def case_prod_beta)
  qed
  have look: "map_of loaded (fst (own ! i)) = Some (snd (loaded ! i))" if "i < length own" for i
  proof -
    have "(fst (loaded ! i), snd (loaded ! i)) \<in> set loaded" using that len by simp
    then have "map_of loaded (fst (loaded ! i)) = Some (snd (loaded ! i))"
      using dist by (simp only: map_of_eq_Some_iff)
    then show ?thesis using nth [OF that] by simp
  qed
  have all: "list_all (\<lambda>(k, t). case map_of loaded k of None \<Rightarrow> False
                                 | Some t' \<Rightarrow> shape t' = shape t) own"
    unfolding list_all_length using look nth by (simp add: case_prod_beta)
  have res: "map (\<lambda>(k, t). (k, case map_of loaded k of None \<Rightarrow> t
                                | Some t' \<Rightarrow> t\<lparr>data := data t'\<rparr>)) own = loaded"
  proof (rule nth_equalityI)
    show "length (map (\<lambda>(k, t). (k, case map_of loaded k of None \<Rightarrow> t
                                | Some t' \<Rightarrow> t\<lparr>data := data t'\<rparr>)) own) = length loaded"
      using len by simp
  next
    fix i
    assume "i < length (map (\<lambda>(k, t). (k, case map_of loaded k of None \<Rightarrow> t
                                | Some t' \<Rightarrow> t\<lparr>data := data t'\<rparr>)) own)"
    then have i: "i < length own" by simp
    have "snd (own ! i)\<lparr>data := data (snd (loaded ! i))\<rparr> = snd (loaded ! i)"
      using nth [OF i] by (intro tensor_data_update) simp
    then show "map (\<lambda>(k, t). (k, case map_of loaded k of None \<Rightarrow> t
                                | Some t' \<Rightarrow> t\<lparr>data := data t'\<rparr>)) own ! i = loaded ! i"
      using i look [OF i] nth [OF i] by (simp add: case_prod_beta prod_eq_iff)
  qed
  show ?thesis
    unfolding load_state_dict_def using keys all res by simp
qed

lemma load_state_dict_shapes:
  assumes "load_state_dict own loaded = Inr result" and "(k, t) \<in> set own"
  shows "\<exists>t'. map_of loaded k = Some t' \<and> shape t' = shape t"
proof -
  from assms(1) have "list_all (\<lambda>(k, t). case map_of loaded k of None \<Rightarrow> False
                                 | Some t' \<Rightarrow> shape t' = shape t) own"
    unfolding load_state_dict_def by (auto split: if_splits)
  with assms(2) show ?thesis
    unfolding list_all_iff by (auto split: option.splits)
qed

lemma architecture_QNet:
  "QNet init n_images vector_dim n_act = Inr sd \<Longrightarrow>
   architecture sd = QNet_shapes (nat n_images) (nat vector_dim) (nat n_act)"
  by (auto simp: QNet_def architecture_def case_prod_beta split: if_splits intro: nth_equalityI)

lemma distinct_QNet_shapes: "distinct (map fst (QNet_shapes n v a))"
  by (simp add: QNet_shapes_def)

section \<open>One step of the agent\<close>

lemma train_fields:
  "time_tick (snd (train T rand s)) = time_tick s"
  "iteration (snd (train T rand s)) = iteration s"
proof -
  let ?s' = "snd (train T rand s)"
  have eq: "?s'\<lparr>qnet := qnet s, qnet_support := qnet_support s, optimizer := optimizer s\<rparr> = s"
    using train_frame [of T rand s] by simp
  show "time_tick ?s' = time_tick s" using arg_cong [OF eq, of time_tick] by simp
  show "iteration ?s' = iteration s" using arg_cong [OF eq, of iteration] by simp
qed

lemma store_transition_fields:
  "qnet (store_transition s x) = qnet s" "qnet_support (store_transition s x) = qnet_support s"
  "time_tick (store_transition s x) = time_tick s" "iteration (store_transition s x) = iteration s"
  by (simp_all add: store_transition_def split: option.splits)

lemma get_greedy_action_frame:
  "architecture (snd (get_greedy_action T online x)) = architecture online"
  using architecture_forward [of T online x]
  by (cases "forward T online x") (auto simp: get_greedy_action_def split: sum.splits)

lemma train_if_warm_frame:
  assumes "train_if_warm T r s = (err, out, s')"
  shows "time_tick s' = time_tick s \<and> iteration s' = iteration s
       \<and> architecture (qnet s') = architecture (qnet s)
       \<and> architecture (qnet_support s') = architecture (qnet_support s)
       \<and> parameters (qnet_support s') = parameters (qnet_support s)
       \<and> Iteration_done \<notin> set out"
proof (cases "n_experience (replay_buffer s) > training_start_from s")
  case True
  with assms have "s' = snd (train T (choice_batch r) s)" "out = []"
    by (auto simp: train_if_warm_def split: prod.splits)
  then show ?thesis using train_frame [of T "choice_batch r" s] train_fields [of T "choice_batch r" s]
    by simp
next
  case False
  with assms show ?thesis by (auto simp: train_if_warm_def split: if_splits)
qed

lemma step_decompose:
  "\<exists>s3 out1. time_tick s3 = time_tick s \<and> iteration s3 = iteration s
     \<and> architecture (qnet s3) = architecture (qnet s)
     \<and> architecture (qnet_support s3) = architecture (qnet_support s)
     \<and> parameters (qnet_support s3) = parameters (qnet_support s)
     \<and> Iteration_done \<notin> set out1
     \<and> ((\<exists>err. step T r s raw = (Inl err, out1, s3))
        \<or> (\<exists>err out2 s4. sync_target s3 = (Some err, out2, s4)
              \<and> step T r s raw = (Inl err, out1 @ out2, s4))
        \<or> (\<exists>a x out2 s4. sync_target s3 = (None, out2, s4)
              \<and> step T r s raw
                  = (Inr a, out1 @ out2, s4\<lparr>prev_observation := Some x, prev_action := Some a\<rparr>)))"
proof (cases "obs_to_tensor (shape_obs_image s) raw")
  case (Inl err)
  then have "step T r s raw = (Inl err, [], s)" by (simp add: step_def)
  then show ?thesis by (intro exI [of _ s] exI [of _ "[]"]) simp
next
  case (Inr obs_now)
  let ?s1 = "store_transition s obs_now"
  obtain g online' where gg: "get_greedy_action T (qnet ?s1) obs_now = (g, online')"
    by (cases "get_greedy_action T (qnet ?s1) obs_now")
  have ar: "architecture online' = architecture (qnet s)"
    using get_greedy_action_frame [of T "qnet ?s1" obs_now] gg by (simp add: store_transition_fields)
  let ?s2 = "?s1\<lparr>qnet := online'\<rparr>"
  have s2: "time_tick ?s2 = time_tick s" "iteration ?s2 = iteration s"
    "architecture (qnet ?s2) = architecture (qnet s)" "qnet_support ?s2 = qnet_support s"
    using ar by (simp_all add: store_transition_fields)
  show ?thesis
  proof (cases g)
    case (Inl err)
    then have "step T r s raw = (Inl err, [], ?s2)" by (simp add: step_def Inr gg Let_def)
    then show ?thesis using s2 by (intro exI [of _ ?s2] exI [of _ "[]"]) simp
  next
    case g: (Inr ga)
    obtain greedy_action q_vec where ga: "ga = (greedy_action, q_vec)" by (cases ga)
    show ?thesis
    proof (cases "select_action r ?s2 greedy_action")
      case (Inl err)
      then have "step T r s raw = (Inl err, [], ?s2)" by (simp add: step_def Inr gg g ga Let_def)
      then show ?thesis using s2 by (intro exI [of _ ?s2] exI [of _ "[]"]) simp
    next
      case sel: (Inr next_action)
      obtain terr out1 s3 where tw: "train_if_warm T r ?s2 = (terr, out1, s3)"
        by (cases "train_if_warm T r ?s2") auto
      note fr = train_if_warm_frame [OF tw]
      have s3: "time_tick s3 = time_tick s \<and> iteration s3 = iteration s
         \<and> architecture (qnet s3) = architecture (qnet s)
         \<and> architecture (qnet_support s3) = architecture (qnet_support s)
         \<and> parameters (qnet_support s3) = parameters (qnet_support s)
         \<and> Iteration_done \<notin> set out1"
        using fr s2 by simp
      show ?thesis
      proof (cases terr)
        case (Some err)
        then have "step T r s raw = (Inl err, out1, s3)"
          by (simp add: step_def Inr gg g ga sel tw Let_def)
        then show ?thesis using s3 by (intro exI [of _ s3] exI [of _ out1]) simp
      next
        case None
        obtain serr out2 s4 where sy: "sync_target s3 = (serr, out2, s4)"
          by (cases "sync_target s3") auto
        show ?thesis
        proof (cases serr)
          case (Some err)
          then have "step T r s raw = (Inl err, out1 @ out2, s4)"
            by (simp add: step_def Inr gg g ga sel tw None sy Let_def)
          then show ?thesis using s3 sy Some by (intro exI [of _ s3] exI [of _ out1]) simp
        next
          case n: None
          then have "step T r s raw = (Inr next_action, out1 @ out2,
                       s4\<lparr>prev_observation := Some obs_now, prev_action := Some next_action\<rparr>)"
            by (simp add: step_def Inr gg g ga sel tw None sy Let_def)
          then show ?thesis using s3 sy n by (intro exI [of _ s3] exI [of _ out1]) auto
        qed
      qed
    qed
  qed
qed

lemma sync_target_tick:
  assumes "sync_target s = (None, out, s')"
  shows "iteration s' = iteration s
       \<and> time_tick s' = (if time_tick s = iteration s then 0 else time_tick s + 1)
       \<and> out = (if time_tick s = iteration s then [Iteration_done] else [])
       \<and> qnet s' = qnet s
       \<and> (time_tick s \<noteq> iteration s \<longrightarrow> qnet_support s' = qnet_support s)
       \<and> (time_tick s = iteration s \<longrightarrow> load_state_dict (qnet_support s) (qnet s) = Inr (qnet_support s'))"
  using assms by (auto simp: sync_target_def split: if_splits sum.splits)

lemma sync_target_ok:
  assumes "architecture (qnet_support s) = architecture (qnet s)" "distinct (map fst (qnet s))"
    and "time_tick s = iteration s"
  shows "sync_target s = (None, [Iteration_done], s\<lparr>time_tick := 0, qnet_support := qnet s\<rparr>)"
  using load_state_dict_same_architecture [OF assms(1,2)] assms(3)
  by (simp add: sync_target_def)

lemma sync_target_arch:
  assumes "architecture (qnet_support s) = architecture (qnet s)" "distinct (map fst (qnet s))"
    and "sync_target s = (err, out, s')"
  shows "architecture (qnet_support s') = architecture (qnet s') \<and> qnet s' = qnet s"
proof (cases "time_tick s = iteration s")
  case True
  from sync_target_ok [OF assms(1,2) True] assms(3) show ?thesis by auto
next
  case False
  with assms show ?thesis by (auto simp: sync_target_def)
qed

lemma distinct_keys_architecture:
  "architecture sd' = architecture sd \<Longrightarrow> distinct (map fst sd') = distinct (map fst sd)"
  using map_fst_architecture [of sd] map_fst_architecture [of sd'] by simp

lemma step_tick:
  assumes "step T r s raw = (Inr a, out, s')"
  shows "iteration s' = iteration s
       \<and> time_tick s' = (if time_tick s = iteration s then 0 else time_tick s + 1)
       \<and> count_list out Iteration_done = (if time_tick s = iteration s then 1 else 0)"
proof -
  from step_decompose [of s T r raw] obtain s3 out1 where
    s3: "time_tick s3 = time_tick s" "iteration s3 = iteration s" "Iteration_done \<notin> set out1"
    and alt: "(\<exists>err. step T r s raw = (Inl err, out1, s3))
        \<or> (\<exists>err out2 s4. sync_target s3 = (Some err, out2, s4)
              \<and> step T r s raw = (Inl err, out1 @ out2, s4))
        \<or> (\<exists>a x out2 s4. sync_target s3 = (None, out2, s4)
              \<and> step T r s raw
                  = (Inr a, out1 @ out2, s4\<lparr>prev_observation := Some x, prev_action := Some a\<rparr>))"
    by blast
  from alt assms obtain x out2 s4 where sy: "sync_target s3 = (None, out2, s4)"
    and out: "out = out1 @ out2"
    and s': "s' = s4\<lparr>prev_observation := Some x, prev_action := Some a\<rparr>"
    by auto
  have c1: "count_list out1 Iteration_done = 0" using s3(3) by (simp add: count_list_0_iff)
  from sync_target_tick [OF sy] s3(1,2) show ?thesis
    by (auto simp: out s' c1)
qed

lemma step_agent_ok:
  assumes "agent_ok s"
  shows "agent_ok (snd (snd (step T r s raw)))"
proof -
  from step_decompose [of s T r raw] obtain s3 out1 where
    s3: "architecture (qnet s3) = architecture (qnet s)"
        "architecture (qnet_support s3) = architecture (qnet_support s)"
    and alt: "(\<exists>err. step T r s raw = (Inl err, out1, s3))
        \<or> (\<exists>err out2 s4. sync_target s3 = (Some err, out2, s4)
              \<and> step T r s raw = (Inl err, out1 @ out2, s4))
        \<or> (\<exists>a x out2 s4. sync_target s3 = (None, out2, s4)
              \<and> step T r s raw
                  = (Inr a, out1 @ out2, s4\<lparr>prev_observation := Some x, prev_action := Some a\<rparr>))"
    by blast
  have a3: "architecture (qnet_support s3) = architecture (qnet s3)"
    using assms s3 by (simp add: agent_ok_def)
  have d3: "distinct (map fst (qnet s3))"
    using assms distinct_keys_architecture [OF s3(1)] by (simp add: agent_ok_def)
  have ok3: "agent_ok s3" using a3 d3 by (simp add: agent_ok_def)
  have sync: "agent_ok s4" if "sync_target s3 = (err, out2, s4)" for err out2 s4
    using sync_target_arch [OF a3 d3 that] d3 by (simp add: agent_ok_def)
  from alt show ?thesis
  proof (elim disjE exE conjE)
    fix err assume "step T r s raw = (Inl err, out1, s3)"
    then show ?thesis using ok3 by simp
  next
    fix err out2 s4
    assume "sync_target s3 = (Some err, out2, s4)" "step T r s raw = (Inl err, out1 @ out2, s4)"
    then show ?thesis using sync by simp
  next
    fix a x out2 s4
    assume "sync_target s3 = (None, out2, s4)"
      "step T r s raw = (Inr a, out1 @ out2, s4\<lparr>prev_observation := Some x, prev_action := Some a\<rparr>)"
    then show ?thesis using sync [of None out2 s4] by (simp add: agent_ok_def)
  qed
qed

lemma steps_agent_ok:
  "agent_ok s \<Longrightarrow> agent_ok (snd (snd (steps T s inputs)))"
proof (induction inputs arbitrary: s)
  case Nil
  then show ?case by simp
next
  case (Cons i inputs)
  obtain r raw where i: "i = (r, raw)" by (cases i)
  obtain res out s' where st: "step T r s raw = (res, out, s')" by (cases "step T r s raw") auto
  have ok: "agent_ok s'" using step_agent_ok [OF Cons.prems, of T r raw] st by simp
  show ?case
  proof (cases res)
    case (Inl err)
    then show ?thesis using ok by (simp add: i st)
  next
    case (Inr a)
    then show ?thesis using Cons.IH [OF ok] by (auto simp: i st split: prod.splits)
  qed
qed

lemma steps_tick:
  assumes "steps T s inputs = (None, out, s')"
    and "0 \<le> time_tick s" "time_tick s \<le> iteration s"
  shows "iteration s' = iteration s
       \<and> time_tick s' = (time_tick s + int (length inputs)) mod (iteration s + 1)
       \<and> int (count_list out Iteration_done)
           = (time_tick s + int (length inputs)) div (iteration s + 1)"
  using assms
proof (induction inputs arbitrary: s out s')
  case Nil
  then show ?case by (simp add: mod_pos_pos_trivial div_pos_pos_trivial)
next
  case (Cons i inputs)
  obtain r raw where i: "i = (r, raw)" by (cases i)
  obtain res out1 s1 where st: "step T r s raw = (res, out1, s1)" by (cases "step T r s raw") auto
  obtain err out2 s2 where rest: "steps T s1 inputs = (err, out2, s2)" by (cases "steps T s1 inputs") auto
  from Cons.prems(1) obtain a where res: "res = Inr a"
    by (cases res) (simp_all add: i st)
  from Cons.prems(1) have e: "err = None" "out = out1 @ out2" "s' = s2"
    by (simp_all add: i st res rest)
  note t1 = step_tick [OF st [unfolded res]]
  let ?N = "iteration s"
  have bounds: "0 \<le> time_tick s1" "time_tick s1 \<le> iteration s1"
    using t1 Cons.prems(2,3) by (auto split: if_splits)
  note ih = Cons.IH [OF rest [unfolded e(1)] bounds]
  show ?case
  proof (cases "time_tick s = ?N")
    case True
    then have s1: "time_tick s1 = 0" "iteration s1 = ?N" "count_list out1 Iteration_done = 1"
      using t1 by simp_all
    have "(?N + int (length (i # inputs))) = int (length inputs) + 1 * (?N + 1)" by simp
    then have m: "(?N + int (length (i # inputs))) mod (?N + 1) = int (length inputs) mod (?N + 1)"
      and d: "(?N + int (length (i # inputs))) div (?N + 1) = int (length inputs) div (?N + 1) + 1"
      using Cons.prems(2) True by (simp_all only: mod_mult_self2 div_mult_self2) simp_all
    show ?thesis using ih s1 True m d by (simp add: e)
  next
    case False
    then have s1: "time_tick s1 = time_tick s + 1" "iteration s1 = ?N" "count_list out1 Iteration_done = 0"
      using t1 by simp_all
    have l: "time_tick s1 + int (length inputs) = time_tick s + int (length (i # inputs))"
      using s1 by simp
    have "iteration s2 = ?N"
      and "time_tick s2 = (time_tick s + int (length (i # inputs))) mod (?N + 1)"
      and "int (count_list out2 Iteration_done)
             = (time_tick s + int (length (i # inputs))) div (?N + 1)"
      using ih unfolding l s1(2) by blast+
    then show ?thesis using s1(3) by (simp only: e count_list_append) simp
  qed
qed

section \<open>Construction and synchronisation\<close>

lemma load_state_dict_error: "load_state_dict own loaded = Inl err \<Longrightarrow> err = RuntimeError"
  by (auto simp: load_state_dict_def split: if_splits)

lemma QNet_error: "QNet init n v a = Inl err \<Longrightarrow> err = RuntimeError"
  by (auto simp: QNet_def split: if_splits)

lemma DQNAgent_init_horizon:
  assumes "qn_input_time_horizon config \<noteq> 1"
  shows "DQNAgent_init T config n_act shape_im eps_start = Inl RuntimeError"
proof (cases "QNet (initial T 0) (qn_input_time_horizon config) 2 n_act")
  case (Inl err)
  then show ?thesis using QNet_error [OF Inl] by (simp add: DQNAgent_init_def)
next
  case (Inr online)
  let ?h = "qn_input_time_horizon config"
  from Inr have h: "0 \<le> ?h" "0 \<le> n_act" by (auto simp: QNet_def split: if_splits)
  then obtain support where s: "QNet (initial T 1) 1 2 n_act = Inr support"
    by (simp add: QNet_def)
  have "load_state_dict support online = Inl RuntimeError"
  proof (cases "load_state_dict support online")
    case (Inl err)
    then show ?thesis using load_state_dict_error [OF Inl] by simp
  next
    case loaded: (Inr result)
    have mem: "(''conv1.weight'',
                \<lparr>shape = [8, 3, 3, 3], data = initial T 1 ''conv1.weight'' [8, 3, 3, 3]\<rparr>)
                 \<in> set support"
      using s h by (auto simp: QNet_def QNet_shapes_def)
    from load_state_dict_shapes [OF loaded mem] obtain t' where
      t': "map_of online ''conv1.weight'' = Some t'" "shape t' = [8, 3, 3, 3]"
      by auto
    have "map_of online ''conv1.weight''
            = Some \<lparr>shape = [8, 3 * nat ?h, 3, 3],
                    data = initial T 0 ''conv1.weight'' [8, 3 * nat ?h, 3, 3]\<rparr>"
      using Inr h by (auto simp: QNet_def QNet_shapes_def)
    with t' have "3 * nat ?h = 3" by auto
    with h assms show ?thesis by auto
  qed
  then show ?thesis using s by (simp add: DQNAgent_init_def Inr)
qed

lemma DQNAgent_init_copy:
  assumes "DQNAgent_init T config n_act shape_im eps_start = Inr s"
  shows "qn_input_time_horizon config = 1 \<and> qnet_support s = qnet s \<and> agent_ok s
       \<and> time_tick s = 0 \<and> iteration s = qn_iteration config"
proof -
  have h: "qn_input_time_horizon config = 1"
    using DQNAgent_init_horizon [of config T n_act shape_im eps_start] assms by auto
  from assms obtain online support support' where
    q: "QNet (initial T 0) 1 2 n_act = Inr online" "QNet (initial T 1) 1 2 n_act = Inr support"
    and l: "load_state_dict support online = Inr support'"
    and s: "qnet s = online" "qnet_support s = support'" "time_tick s = 0"
       "iteration s = qn_iteration config"
    unfolding DQNAgent_init_def h
    by (auto split: sum.splits if_splits)
  have a: "architecture support = architecture online"
    using architecture_QNet [OF q(1)] architecture_QNet [OF q(2)] by simp
  have d: "distinct (map fst online)"
    using architecture_QNet [OF q(1)] map_fst_architecture [of online]
      distinct_QNet_shapes [of "nat 1" "nat 2" "nat n_act"] by simp
  from load_state_dict_same_architecture [OF a d] l have "support' = online" by simp
  then show ?thesis using h s d by (simp add: agent_ok_def)
qed

lemma run_reaches:
  assumes "run T config n_act shape_im eps_start inputs = Inr (err, out, s)"
  shows "agent_ok s"
    and "err = None \<Longrightarrow> 0 \<le> qn_iteration config \<Longrightarrow>
         iteration s = qn_iteration config
         \<and> time_tick s = int (length inputs) mod (qn_iteration config + 1)
         \<and> int (count_list out Iteration_done) = int (length inputs) div (qn_iteration config + 1)"
proof -
  from assms obtain s0 where
    i: "DQNAgent_init T config n_act shape_im eps_start = Inr s0"
    and st: "steps T s0 inputs = (err, out, s)"
    by (auto simp: run_def split: sum.splits)
  note c = DQNAgent_init_copy [OF i]
  show "agent_ok s" using steps_agent_ok [of s0 T inputs] c st by simp
  show "iteration s = qn_iteration config
         \<and> time_tick s = int (length inputs) mod (qn_iteration config + 1)
         \<and> int (count_list out Iteration_done) = int (length inputs) div (qn_iteration config + 1)"
    if "err = None" "0 \<le> qn_iteration config"
    using steps_tick [of T s0 inputs out s] st that c by simp
qed

lemma step_sync:
  assumes "agent_ok s" and "step T r s raw = (Inr a, out, s')"
  shows "(time_tick s = iteration s \<longrightarrow>
            time_tick s' = 0 \<and> qnet_support s' = qnet s' \<and> count_list out Iteration_done = 1)
       \<and> (time_tick s \<noteq> iteration s \<longrightarrow>
            time_tick s' = time_tick s + 1
            \<and> parameters (qnet_support s') = parameters (qnet_support s)
            \<and> count_list out Iteration_done = 0)"
proof -
  from step_decompose [of s T r raw] obtain s3 out1 where
    s3: "time_tick s3 = time_tick s" "iteration s3 = iteration s"
        "architecture (qnet s3) = architecture (qnet s)"
        "architecture (qnet_support s3) = architecture (qnet_support s)"
        "parameters (qnet_support s3) = parameters (qnet_support s)"
        "Iteration_done \<notin> set out1"
    and alt: "(\<exists>err. step T r s raw = (Inl err, out1, s3))
        \<or> (\<exists>err out2 s4. sync_target s3 = (Some err, out2, s4)
              \<and> step T r s raw = (Inl err, out1 @ out2, s4))
        \<or> (\<exists>a x out2 s4. sync_target s3 = (None, out2, s4)
              \<and> step T r s raw
                  = (Inr a, out1 @ out2, s4\<lparr>prev_observation := Some x, prev_action := Some a\<rparr>))"
    by blast
  from alt assms(2) obtain x out2 s4 where sy: "sync_target s3 = (None, out2, s4)"
    and out: "out = out1 @ out2"
    and s': "s' = s4\<lparr>prev_observation := Some x, prev_action := Some a\<rparr>"
    by auto
  have c1: "count_list out1 Iteration_done = 0" using s3(6) by (simp add: count_list_0_iff)
  have a3: "architecture (qnet_support s3) = architecture (qnet s3)"
    using assms(1) s3 by (simp add: agent_ok_def)
  have d3: "distinct (map fst (qnet s3))"
    using assms(1) distinct_keys_architecture [OF s3(3)] by (simp add: agent_ok_def)
  show ?thesis
  proof (cases "time_tick s = iteration s")
    case True
    then have "time_tick s3 = iteration s3" using s3 by simp
    from sync_target_ok [OF a3 d3 this] sy
    have "out2 = [Iteration_done]" "s4 = s3\<lparr>time_tick := 0, qnet_support := qnet s3\<rparr>" by simp_all
    then show ?thesis using True by (simp add: out s' c1)
  next
    case False
    then have "time_tick s3 \<noteq> iteration s3" using s3 by simp
    with sy have "out2 = []" "s4 = s3\<lparr>time_tick := time_tick s3 + 1\<rparr>"
      by (simp_all add: sync_target_def)
    then show ?thesis using False s3 by (simp add: out s' c1)
  qed
qed

subsection \<open>The small instance, from construction\<close>

lemmas example_run_defs =
  run_def DQNAgent_init_def example_config_def QNet_def QNet_shapes_def load_state_dict_def
  ReplayBuffer_init_def example_torch_def step_def example_input_def obs_to_tensor_def
  store_transition_def get_greedy_action_def forward_def parameters_def buffer_keys_def
  select_action_def train_if_warm_def sync_target_def Let_def buffer_append_def deque_append_def

lemma example_run_two:
  "run example_torch (example_config 1) 2 (32, 32, 3) (1 / 10)
     [example_input [0, 0], example_input [1, 1]]
     = Inr (None, [Buffer_progress 0 10], example_state)
   \<and> time_tick example_state = 2 \<and> iteration example_state = 2"
proof -
  have "case run example_torch (example_config 1) 2 (32, 32, 3) (1 / 10)
               [example_input [0, 0], example_input [1, 1]] of
          Inl err \<Rightarrow> False
        | Inr (err, out, s) \<Rightarrow>
            err = None \<and> out = [Buffer_progress 0 10] \<and> time_tick s = 2 \<and> iteration s = 2"
    by (simp add: example_run_defs)
  then show ?thesis
    by (cases "run example_torch (example_config 1) 2 (32, 32, 3) (1 / 10)
               [example_input [0, 0], example_input [1, 1]]")
       (auto simp: example_state_def)
qed

lemma example_step_three:
  "fst (step example_torch (fst (example_input [1, 1])) example_state (snd (example_input [1, 1])))
     = Inr 0"
proof -
  have two: "replicate 2 x = [x, x]" for x :: real by (simp add: numeral_2_eq_2)
  show ?thesis unfolding example_state_def by (simp add: example_run_defs two)
qed

subsection \<open>The copy at construction\<close>

text \<open>
  Claim C4. The constructor builds the online network for \<^verbatim>\<open>input_time_horizon\<close> images
  and the support network for one image, and then loads the online \<^verbatim>\<open>state_dict\<close> into
  the support network. For every time horizon other than 1 the shapes of \<^verbatim>\<open>conv1.weight\<close>
  differ and \<^verbatim>\<open>load_state_dict\<close> raises: no agent is constructed. When the constructor
  returns, the time horizon is 1, the support network is the online network, and both
  give the same output on every input.
\<close>

theorem target_copy_at_construction:
  "(qn_input_time_horizon config \<noteq> 1 \<longrightarrow>
      DQNAgent_init T config n_act shape_im eps_start = Inl RuntimeError)
   \<and> (DQNAgent_init T config n_act shape_im eps_start = Inr s \<longrightarrow>
        qn_input_time_horizon config = 1 \<and> qnet_support s = qnet s
        \<and> forward_out T (parameters (qnet_support s)) x = forward_out T (parameters (qnet s)) x)"
  using DQNAgent_init_horizon [of config T n_act shape_im eps_start]
    DQNAgent_init_copy [of T config n_act shape_im eps_start s]
  by simp

text \<open>
  Claim C4 at the small instance: a time horizon of 2 makes the constructor raise; with a
  time horizon of 1 it returns an agent whose support network is the online one.
\<close>

theorem target_copy_at_construction_witness:
  "qn_input_time_horizon (example_config 2) = 2
   \<and> DQNAgent_init example_torch (example_config 2) 2 (32, 32, 3) (1 / 10) = Inl RuntimeError
   \<and> DQNAgent_init example_torch (example_config 1) 2 (32, 32, 3) (1 / 10)
       = Inr (projr (DQNAgent_init example_torch (example_config 1) 2 (32, 32, 3) (1 / 10)))
   \<and> qnet_support (projr (DQNAgent_init example_torch (example_config 1) 2 (32, 32, 3) (1 / 10)))
       = qnet (projr (DQNAgent_init example_torch (example_config 1) 2 (32, 32, 3) (1 / 10)))"
proof -
  have ok: "DQNAgent_init example_torch (example_config 1) 2 (32, 32, 3) (1 / 10)
       = Inr (projr (DQNAgent_init example_torch (example_config 1) 2 (32, 32, 3) (1 / 10)))"
    using example_run_two
    by (cases "DQNAgent_init example_torch (example_config 1) 2 (32, 32, 3) (1 / 10)")
       (simp_all add: run_def)
  show ?thesis
    using ok
      target_copy_at_construction [of "example_config 2" example_torch 2 "(32, 32, 3)" "1 / 10"]
      target_copy_at_construction [of "example_config 1" example_torch 2 "(32, 32, 3)" "1 / 10"
        "projr (DQNAgent_init example_torch (example_config 1) 2 (32, 32, 3) (1 / 10))"]
    by (simp add: example_config_def)
qed

subsection \<open>The period of the synchronisation\<close>

text \<open>
  Claim C3. In a run of calls of \<^verbatim>\<open>step\<close> from construction, none of which raises, with
  \<^verbatim>\<open>iteration\<close> at least 0: the support network is synchronised every \<^verbatim>\<open>iteration + 1\<close>
  calls. After \<open>n\<close> calls the counter is \<open>n mod (iteration + 1)\<close> and
  \<open>n div (iteration + 1)\<close> synchronisations have been printed. A call that finds the
  counter equal to \<^verbatim>\<open>iteration\<close> sets it to 0 without incrementing it and loads the online
  network into the support network, which then is the online network; every other call
  increments the counter and leaves the parameters of the support network as they are.
\<close>

theorem target_sync_period:
  assumes "run T config n_act shape_im eps_start inputs = Inr (None, out, s)"
    and "0 \<le> qn_iteration config"
    and "step T r s raw = (Inr a, out', s')"
  shows "time_tick s = int (length inputs) mod (qn_iteration config + 1)
       \<and> int (count_list out Iteration_done) = int (length inputs) div (qn_iteration config + 1)
       \<and> (time_tick s = qn_iteration config \<longrightarrow>
            time_tick s' = 0 \<and> qnet_support s' = qnet s' \<and> count_list out' Iteration_done = 1)
       \<and> (time_tick s \<noteq> qn_iteration config \<longrightarrow>
            time_tick s' = time_tick s + 1
            \<and> parameters (qnet_support s') = parameters (qnet_support s)
            \<and> count_list out' Iteration_done = 0)"
  using run_reaches(2) [OF assms(1) refl assms(2)]
    step_sync [OF run_reaches(1) [OF assms(1)] assms(3)]
  by simp

text \<open>
  Claim C3 at the small instance, where \<^verbatim>\<open>iteration\<close> is 2: after two calls the counter is
  2 and nothing has been synchronised; the third call synchronises and sets the counter
  to 0.
\<close>

theorem target_sync_period_witness:
  "time_tick example_state = 2
   \<and> time_tick (snd (snd (step example_torch (fst (example_input [1, 1])) example_state
                             (snd (example_input [1, 1]))))) = 0
   \<and> qnet_support (snd (snd (step example_torch (fst (example_input [1, 1])) example_state
                                (snd (example_input [1, 1])))))
       = qnet (snd (snd (step example_torch (fst (example_input [1, 1])) example_state
                           (snd (example_input [1, 1])))))
   \<and> count_list (fst (snd (step example_torch (fst (example_input [1, 1])) example_state
                              (snd (example_input [1, 1]))))) Iteration_done = 1"
proof -
  let ?st = "step example_torch (fst (example_input [1, 1])) example_state
               (snd (example_input [1, 1]))"
  have r: "run example_torch (example_config 1) 2 (32, 32, 3) (1 / 10)
             [example_input [0, 0], example_input [1, 1]]
             = Inr (None, [Buffer_progress 0 10], example_state)"
    using example_run_two by simp
  have q: "0 \<le> qn_iteration (example_config 1)" by (simp add: example_config_def)
  have st: "?st = (Inr 0, fst (snd ?st), snd (snd ?st))"
    using example_step_three by (simp add: prod_eq_iff)
  note t = target_sync_period [OF r q st]
  from t have tick: "time_tick example_state = 2" by (simp add: example_config_def)
  with t show ?thesis by (simp add: example_config_def)
qed

text \<open>
  With \<^verbatim>\<open>iteration = 2\<close>, two calls of \<^verbatim>\<open>step\<close> after construction return without a
  synchronisation: nothing but the progress of the buffer is printed, and the counter
  stands at 2, not at 0.
\<close>

theorem target_sync_period_counterexample:
  "run example_torch (example_config 1) 2 (32, 32, 3) (1 / 10)
     [example_input [0, 0], example_input [1, 1]]
     = Inr (None, [Buffer_progress 0 10], example_state)
   \<and> time_tick example_state = 2 \<and> iteration example_state = 2"
  by (rule example_run_two)

end
